theory Spec2Isabelle
  imports Main "HOL-Library.AList" "HOL-Library.Char_ord" "HOL-Library.List_Lexorder"
    "HOL-Library.Sublist"
begin

section \<open>Data model\<close>

text \<open>
  The sync command of \<^verbatim>\<open>cmd/paprika\<close> mirrors recipes of a remote service into a
  directory tree. The embedding below follows \<^verbatim>\<open>sync.go\<close> and \<^verbatim>\<open>paths.go\<close>
  function by function. Everything the Go code obtains from outside the repository is
  a field of the record \<open>env\<close>: the JSON codec of \<^verbatim>\<open>encoding/json\<close>, the three
  calls of the API client, \<^verbatim>\<open>os.LookupEnv\<close>, the state of the context, the functions
  of the package \<^verbatim>\<open>time\<close>, and an oracle \<open>fails\<close> that says which file system
  calls the operating system refuses (permissions, I/O errors). Log calls have no effect
  on results and are left out, with one exception: \<^verbatim>\<open>log.Fatal()\<close> of zerolog ends
  the process.

  A path is the list of its components below the root of the file system, and a UID is
  one component. The context is either live or cancelled for the whole of a call.
\<close>

type_synonym path = "string list"

text \<open>A file with its bytes, or a directory with its entries by name.\<close>

datatype node = File string | Dir "(string \<times> node) list"

datatype fsop =
  OpOpen | OpRead | OpMkdirAll | OpCreate | OpWrite | OpRemove | OpRemoveAll
  | OpReadDir | OpLstat

datatype error =
  ENOENT | ENOTDIR | EISDIR | EEXIST | EACCES | EOF
  | ErrJSON | ErrTimeParse | ErrAPI string
  | ErrUIDMismatch string string
  | ErrReadDir path error | ErrRemove path error | ErrReadRoot path error
  | ErrCanceled
  | ErrSyncCompletedWithErrors

text \<open>
  How a call ends: it returns, the process exits (\<^verbatim>\<open>os.Exit\<close>), a slice
  expression or \<^verbatim>\<open>make\<close> panics, or a channel send blocks for ever.
\<close>

datatype 'a outcome = Returns 'a | Exits nat | Panics | Blocks

text \<open>
  What a \<^verbatim>\<open>fs.WalkDirFunc\<close> hands back to \<^verbatim>\<open>filepath.WalkDir\<close>: \<^verbatim>\<open>nil\<close>,
  \<^verbatim>\<open>filepath.SkipDir\<close>, another error, or a panic that unwinds the walk.
\<close>

datatype walk = WalkNil | WalkSkipDir | WalkErr error | WalkPanic

text \<open>
  \<^verbatim>\<open>paprika.RecipeItem\<close> is a reference of the index; \<^verbatim>\<open>paprika.Recipe\<close> is the full
  record, with the same two fields and the fields of the recipe itself, kept here as one
  opaque value.
\<close>

record RecipeItem =
  UID :: string
  Hash :: string

record Recipe = RecipeItem +
  Fields :: string

type_synonym Category = "string \<times> string"

record CLI =
  DataDir :: path

record SyncCMD =
  IncludeRecipes :: bool
  PurgeAfter :: int
  IncludeCategories :: bool
  DownloadConcurrency :: int

record 'tm env =
  lookupEnv :: "string \<Rightarrow> path option"
  fails :: "fsop \<Rightarrow> path \<Rightarrow> bool"
  ctxErr :: bool
  jsonDecodeItem :: "string \<Rightarrow> RecipeItem option"
  jsonDecodeIndex :: "string \<Rightarrow> RecipeItem list option"
  jsonEncodeRecipe :: "Recipe \<Rightarrow> string"
  jsonEncodeIndex :: "RecipeItem list \<Rightarrow> string"
  jsonEncodeCategories :: "Category list \<Rightarrow> string"
  apiRecipes :: "RecipeItem list \<times> error option"
  apiRecipe :: "string \<Rightarrow> error + Recipe"
  apiCategories :: "error + Category list"
  timeParse :: "string \<Rightarrow> string \<Rightarrow> 'tm option"
  timeFormat :: "string \<Rightarrow> 'tm \<Rightarrow> string"
  timeUnixNano :: "'tm \<Rightarrow> int"

text \<open>
  The state a run works on: the directory tree, and the UIDs for which the full record
  was requested from the API, latest first.
\<close>

record world =
  fs :: node
  fetched :: "string list"

section \<open>The file system\<close>

text \<open>
  The entries of a directory are kept in the order of their names, the order in which
  \<^verbatim>\<open>os.ReadDir\<close> lists them; \<open>insertEntry\<close> keeps that order.
\<close>

fun insertEntry :: "string \<Rightarrow> node \<Rightarrow> (string \<times> node) list \<Rightarrow> (string \<times> node) list" where
  "insertEntry c n [] = [(c, n)]"
| "insertEntry c n ((k, v) # es) =
     (if c = k then (c, n) # es
      else if c < k then (c, n) # (k, v) # es
      else (k, v) # insertEntry c n es)"

fun sortedTree :: "node \<Rightarrow> bool" where
  "sortedTree (File s) = True"
| "sortedTree (Dir es) =
     (sorted (map fst es) \<and> distinct (map fst es) \<and> list_all (\<lambda>(name, n). sortedTree n) es)"

fun lookup :: "node \<Rightarrow> path \<Rightarrow> node option" where
  "lookup n [] = Some n"
| "lookup (File s) (c # cs) = None"
| "lookup (Dir es) (c # cs) =
     (case map_of es c of None \<Rightarrow> None | Some ch \<Rightarrow> lookup ch cs)"

text \<open>
  \<open>putAt p n'\<close> places \<open>n'\<close> at \<open>p\<close>, provided the directory that holds \<open>p\<close>
  exists; \<open>removeAt p\<close> takes away what stands at \<open>p\<close> with all below it (the root
  itself stays, emptied).
\<close>

fun putAt :: "path \<Rightarrow> node \<Rightarrow> node \<Rightarrow> node" where
  "putAt [] n' n = n'"
| "putAt (c # cs) n' (File s) = File s"
| "putAt (c # cs) n' (Dir es) =
     (if cs = [] then Dir (insertEntry c n' es)
      else case map_of es c of
        None \<Rightarrow> Dir es
      | Some ch \<Rightarrow> Dir (insertEntry c (putAt cs n' ch) es))"

fun removeAt :: "path \<Rightarrow> node \<Rightarrow> node" where
  "removeAt [] (Dir es) = Dir []"
| "removeAt [] (File s) = File s"
| "removeAt (c # cs) (File s) = File s"
| "removeAt (c # cs) (Dir es) =
     (if cs = [] then Dir (AList.delete c es)
      else case map_of es c of
        None \<Rightarrow> Dir es
      | Some ch \<Rightarrow> Dir (insertEntry c (removeAt cs ch) es))"

definition isDir :: "node \<Rightarrow> bool" where
  "isDir n = (case n of Dir es \<Rightarrow> True | File s \<Rightarrow> False)"

text \<open>\<^verbatim>\<open>filepath.Dir\<close> and \<^verbatim>\<open>filepath.Base\<close> on a path of components.\<close>

definition filepathDir :: "path \<Rightarrow> path" where
  "filepathDir p = butlast p"

definition filepathBase :: "path \<Rightarrow> string" where
  "filepathBase p = (if p = [] then ''/'' else last p)"

text \<open>\<^verbatim>\<open>os.Open\<close>: the node behind the handle, as the reads that follow see it.\<close>

definition osOpen :: "'tm env \<Rightarrow> node \<Rightarrow> path \<Rightarrow> error + node" where
  "osOpen e t p =
     (if fails e OpOpen p then Inl EACCES
      else case lookup t p of None \<Rightarrow> Inl ENOENT | Some n \<Rightarrow> Inr n)"

text \<open>Reading an open handle to the end, as a JSON decoder does.\<close>

definition readAll :: "'tm env \<Rightarrow> path \<Rightarrow> node \<Rightarrow> error + string" where
  "readAll e p n =
     (if fails e OpRead p then Inl EACCES
      else case n of Dir es \<Rightarrow> Inl EISDIR | File s \<Rightarrow> Inr s)"

text \<open>
  One \<^verbatim>\<open>f.Read(buf)\<close> with a buffer of \<open>k\<close> bytes on a handle just opened: the
  first \<open>k\<close> bytes of the file, and \<^verbatim>\<open>io.EOF\<close> on an empty file.
\<close>

definition fileRead :: "'tm env \<Rightarrow> path \<Rightarrow> node \<Rightarrow> nat \<Rightarrow> error + string" where
  "fileRead e p n k =
     (if fails e OpRead p then Inl EACCES
      else case n of
        Dir es \<Rightarrow> Inl EISDIR
      | File s \<Rightarrow> if k = 0 then Inr [] else if s = [] then Inl EOF else Inr (take k s))"

text \<open>
  \<^verbatim>\<open>os.MkdirAll\<close>: directories on the way are created; a file on the way is an error,
  met ahead of anything is created.
\<close>

fun mkdirAll :: "path \<Rightarrow> node \<Rightarrow> error + node" where
  "mkdirAll [] (Dir es) = Inr (Dir es)"
| "mkdirAll [] (File s) = Inl ENOTDIR"
| "mkdirAll (c # cs) (File s) = Inl ENOTDIR"
| "mkdirAll (c # cs) (Dir es) =
     (case mkdirAll cs (case map_of es c of None \<Rightarrow> Dir [] | Some ch \<Rightarrow> ch) of
        Inl err \<Rightarrow> Inl err
      | Inr ch' \<Rightarrow> Inr (Dir (insertEntry c ch' es)))"

definition osMkdirAll :: "'tm env \<Rightarrow> path \<Rightarrow> node \<Rightarrow> error option \<times> node" where
  "osMkdirAll e p t =
     (if fails e OpMkdirAll p then (Some EACCES, t)
      else case mkdirAll p t of Inl err \<Rightarrow> (Some err, t) | Inr t' \<Rightarrow> (None, t'))"

text \<open>
  \<^verbatim>\<open>os.Create\<close>: the file is created or truncated; the directory that holds it has
  to exist, and the path must not name a directory.
\<close>

definition osCreate :: "'tm env \<Rightarrow> path \<Rightarrow> node \<Rightarrow> error option \<times> node" where
  "osCreate e p t =
     (if fails e OpCreate p then (Some EACCES, t)
      else if p = [] then (Some EISDIR, t)
      else case lookup t (filepathDir p) of
        None \<Rightarrow> (Some ENOENT, t)
      | Some (File s) \<Rightarrow> (Some ENOTDIR, t)
      | Some (Dir es) \<Rightarrow>
          (case lookup t p of
             Some (Dir ds) \<Rightarrow> (Some EISDIR, t)
           | Some (File s) \<Rightarrow> (None, putAt p (File []) t)
           | None \<Rightarrow> (None, putAt p (File []) t)))"

text \<open>
  \<^verbatim>\<open>os.OpenFile\<close> with \<^verbatim>\<open>O_CREATE|O_EXCL|O_WRONLY\<close>: as \<^verbatim>\<open>os.Create\<close>, but a
  path that exists already is the error \<^verbatim>\<open>EEXIST\<close>, the one \<^verbatim>\<open>os.IsExist\<close>
  recognises.
\<close>

definition osCreateExcl :: "'tm env \<Rightarrow> path \<Rightarrow> node \<Rightarrow> error option \<times> node" where
  "osCreateExcl e p t =
     (if fails e OpCreate p then (Some EACCES, t)
      else if p = [] then (Some EEXIST, t)
      else case lookup t (filepathDir p) of
        None \<Rightarrow> (Some ENOENT, t)
      | Some (File s) \<Rightarrow> (Some ENOTDIR, t)
      | Some (Dir es) \<Rightarrow>
          (case lookup t p of
             Some n \<Rightarrow> (Some EEXIST, t)
           | None \<Rightarrow> (None, putAt p (File []) t)))"

definition osIsExist :: "error \<Rightarrow> bool" where
  "osIsExist err = (err = EEXIST)"

text \<open>Writing a body to the file just created; a refused write leaves it empty.\<close>

definition osWrite :: "'tm env \<Rightarrow> path \<Rightarrow> string \<Rightarrow> node \<Rightarrow> error option \<times> node" where
  "osWrite e p body t =
     (if fails e OpWrite p then (Some EACCES, t) else (None, putAt p (File body) t))"

text \<open>\<^verbatim>\<open>os.Remove\<close>.\<close>

definition osRemove :: "'tm env \<Rightarrow> path \<Rightarrow> node \<Rightarrow> error option \<times> node" where
  "osRemove e p t =
     (if fails e OpRemove p then (Some EACCES, t)
      else case lookup t p of
        None \<Rightarrow> (Some ENOENT, t)
      | Some n \<Rightarrow> (None, removeAt p t))"

text \<open>
  \<^verbatim>\<open>os.RemoveAll\<close>: the path and everything below it; a path that does not exist is
  no error. A refused removal leaves the tree as it is.
\<close>

definition osRemoveAll :: "'tm env \<Rightarrow> path \<Rightarrow> node \<Rightarrow> error option \<times> node" where
  "osRemoveAll e p t =
     (if fails e OpRemoveAll p then (Some EACCES, t) else (None, removeAt p t))"

text \<open>
  \<^verbatim>\<open>os.ReadDir\<close>: the entries of a directory, each with its name and its
  \<^verbatim>\<open>IsDir()\<close>. \<^verbatim>\<open>os.Lstat\<close>: whether the path is a directory.
\<close>

definition dirEntries :: "(string \<times> node) list \<Rightarrow> (string \<times> bool) list" where
  "dirEntries es = map (\<lambda>(name, n). (name, isDir n)) es"

definition osReadDir :: "'tm env \<Rightarrow> path \<Rightarrow> node \<Rightarrow> error + (string \<times> bool) list" where
  "osReadDir e p t =
     (if fails e OpReadDir p then Inl EACCES
      else case lookup t p of
        None \<Rightarrow> Inl ENOENT
      | Some (File s) \<Rightarrow> Inl ENOTDIR
      | Some (Dir es) \<Rightarrow> Inr (dirEntries es))"

definition osLstat :: "'tm env \<Rightarrow> path \<Rightarrow> node \<Rightarrow> error + bool" where
  "osLstat e p t =
     (if fails e OpLstat p then Inl EACCES
      else case lookup t p of None \<Rightarrow> Inl ENOENT | Some n \<Rightarrow> Inr (isDir n))"

section \<open>Path layout (paths.go)\<close>

definition filenameRecipeJSON :: string where
  "filenameRecipeJSON = ''recipe.json''"

definition filenameRecipeDeleteMarker :: string where
  "filenameRecipeDeleteMarker = ''.delete-marker''"

definition filenameRecipesIndex :: string where
  "filenameRecipesIndex = ''recipes-index.json''"

definition filenameCategoriesIndex :: string where
  "filenameCategoriesIndex = ''categories-index.json''"

definition pathToRecipesDir :: "'tm env \<Rightarrow> path \<Rightarrow> path" where
  "pathToRecipesDir e basePath =
     (case lookupEnv e ''PAPRIKA_RECIPES_ROOT'' of
        Some p \<Rightarrow> p
      | None \<Rightarrow> basePath @ [''recipes''])"

text \<open>
  \<^verbatim>\<open>uid[:2]\<close> and \<^verbatim>\<open>uid[:3]\<close> panic on a UID shorter than three bytes: \<open>None\<close>.
\<close>

definition pathToRecipeDir :: "'tm env \<Rightarrow> path \<Rightarrow> string \<Rightarrow> path option" where
  "pathToRecipeDir e basePath uid =
     (if length uid < 3 then None
      else Some (pathToRecipesDir e basePath @ [take 2 uid, take 3 uid, uid]))"

definition pathToRecipeJSONFile :: "'tm env \<Rightarrow> path \<Rightarrow> string \<Rightarrow> path option" where
  "pathToRecipeJSONFile e basePath uid =
     map_option (\<lambda>d. d @ [filenameRecipeJSON]) (pathToRecipeDir e basePath uid)"

definition pathToRecipeDeleteMarkerFile :: "'tm env \<Rightarrow> path \<Rightarrow> string \<Rightarrow> path option" where
  "pathToRecipeDeleteMarkerFile e basePath uid =
     map_option (\<lambda>d. d @ [filenameRecipeDeleteMarker]) (pathToRecipeDir e basePath uid)"

definition pathToRecipesIndexFile :: "'tm env \<Rightarrow> path \<Rightarrow> path" where
  "pathToRecipesIndexFile e basePath =
     (case lookupEnv e ''PAPRIKA_RECIPES_INDEX'' of
        Some p \<Rightarrow> p
      | None \<Rightarrow> basePath @ [filenameRecipesIndex])"

definition pathToCategoriesIndexFile :: "'tm env \<Rightarrow> path \<Rightarrow> path" where
  "pathToCategoriesIndexFile e basePath =
     (case lookupEnv e ''PAPRIKA_CATEGORIES_INDEX'' of
        Some p \<Rightarrow> p
      | None \<Rightarrow> basePath @ [filenameCategoriesIndex])"

section \<open>Incremental upsert (sync.go)\<close>

text \<open>
  \<^verbatim>\<open>shouldSaveRecipe(path, hash)\<close>: a file that cannot be opened is to be created; one
  that does not decode, or decodes with another hash, is to be overwritten.
\<close>

definition shouldSaveRecipe :: "'tm env \<Rightarrow> node \<Rightarrow> path \<Rightarrow> string \<Rightarrow> bool \<times> bool" where
  "shouldSaveRecipe e t p hash =
     (case osOpen e t p of
        Inl err \<Rightarrow> (True, False)
      | Inr f \<Rightarrow>
          (case readAll e p f of
             Inl err \<Rightarrow> (True, True)
           | Inr body \<Rightarrow>
               (case jsonDecodeItem e body of
                  None \<Rightarrow> (True, True)
                | Some extantItem \<Rightarrow>
                    if Hash extantItem = hash then (False, True) else (True, True))))"

text \<open>
  \<^verbatim>\<open>saveAsJSON(val, path)\<close>, with \<open>body\<close> the text the encoder produces for
  \<^verbatim>\<open>val\<close>.
\<close>

definition saveAsJSON :: "'tm env \<Rightarrow> string \<Rightarrow> path \<Rightarrow> node \<Rightarrow> error option \<times> node" where
  "saveAsJSON e body p t =
     (case osMkdirAll e (filepathDir p) t of
        (Some err, t1) \<Rightarrow> (Some err, t1)
      | (None, t1) \<Rightarrow>
          (case osCreate e p t1 of
             (Some err, t2) \<Rightarrow> (Some err, t2)
           | (None, t2) \<Rightarrow> osWrite e p body t2))"

text \<open>
  \<^verbatim>\<open>UpsertRecipe\<close>. The comparison of the fetched hash with the reference hash only
  logs a warning, so it has no branch here.
\<close>

definition UpsertRecipe ::
  "'tm env \<Rightarrow> CLI \<Rightarrow> RecipeItem \<Rightarrow> world \<Rightarrow> (bool \<times> error option) outcome \<times> world" where
  "UpsertRecipe e cli ref w =
     (case pathToRecipeJSONFile e (DataDir cli) (UID ref) of
        None \<Rightarrow> (Panics, w)
      | Some recipePath \<Rightarrow>
          (case shouldSaveRecipe e (fs w) recipePath (Hash ref) of
             (doUpdate, exists) \<Rightarrow>
               if \<not> doUpdate then (Returns (False, None), w)
               else
                 (let w1 = w\<lparr>fetched := UID ref # fetched w\<rparr> in
                  case apiRecipe e (UID ref) of
                    Inl err \<Rightarrow> (Returns (False, Some err), w1)
                  | Inr recipe \<Rightarrow>
                      if UID recipe \<noteq> UID ref
                      then (Returns (False, Some (ErrUIDMismatch (UID recipe) (UID ref))), w1)
                      else
                        (case saveAsJSON e (jsonEncodeRecipe e recipe) recipePath (fs w1) of
                           (Some err, t') \<Rightarrow> (Returns (False, Some err), w1\<lparr>fs := t'\<rparr>)
                         | (None, t') \<Rightarrow> (Returns (True, None), w1\<lparr>fs := t'\<rparr>)))))"

section \<open>Mark-and-sweep purge (sync.go)\<close>

definition RFC3339Nano :: string where
  "RFC3339Nano = ''2006-01-02T15:04:05.999999999Z07:00''"

text \<open>
  \<^verbatim>\<open>readTimestampMarker(path, layout)\<close>: one read into a buffer as long as the
  layout, and the bytes read are parsed.
\<close>

definition readTimestampMarker :: "'tm env \<Rightarrow> node \<Rightarrow> path \<Rightarrow> string \<Rightarrow> error + 'tm" where
  "readTimestampMarker e t p layout =
     (case osOpen e t p of
        Inl err \<Rightarrow> Inl err
      | Inr f \<Rightarrow>
          (case fileRead e p f (length layout) of
             Inl err \<Rightarrow> Inl err
           | Inr buf \<Rightarrow>
               (case timeParse e layout buf of
                  None \<Rightarrow> Inl ErrTimeParse
                | Some tm \<Rightarrow> Inr tm)))"

text \<open>
  The two ways the callback of the walk ends for a directory of a recipe that is not
  in the index. \<open>purgeDir\<close> is the block under \<^verbatim>\<open>if doPurge\<close>: the error of
  \<^verbatim>\<open>os.RemoveAll\<close> is logged, and \<^verbatim>\<open>filepath.SkipDir\<close> is returned whether it
  failed or not. \<open>createMarker\<close> is the block under
  \<^verbatim>\<open>if currentFileName == filenameRecipeJSON\<close>.
\<close>

definition purgeDir :: "'tm env \<Rightarrow> path \<Rightarrow> node \<Rightarrow> walk \<times> node" where
  "purgeDir e dir t = (case osRemoveAll e dir t of (err, t') \<Rightarrow> (WalkSkipDir, t'))"

definition createMarker :: "'tm env \<Rightarrow> path \<Rightarrow> string \<Rightarrow> string \<Rightarrow> node \<Rightarrow> walk \<times> node" where
  "createMarker e dataDir uid nowStamp t =
     (case pathToRecipeDeleteMarkerFile e dataDir uid of
        None \<Rightarrow> (WalkPanic, t)
      | Some markerPath \<Rightarrow>
          (case osCreateExcl e markerPath t of
             (Some err, t1) \<Rightarrow> if osIsExist err then (WalkNil, t1) else (WalkErr err, t1)
           | (None, t1) \<Rightarrow>
               (case osWrite e markerPath nowStamp t1 of
                  (Some err, t2) \<Rightarrow> (WalkErr err, t2)
                | (None, t2) \<Rightarrow> (WalkSkipDir, t2))))"

text \<open>
  The function literal that \<^verbatim>\<open>PurgeUnreferencedRecipes\<close> passes to
  \<^verbatim>\<open>filepath.WalkDir\<close>, called with the path, \<^verbatim>\<open>d.IsDir()\<close> and the error of the
  walk. A cancelled context makes it return its \<^verbatim>\<open>err\<close>, which is \<^verbatim>\<open>nil\<close> there.
\<close>

definition purgeVisit ::
  "'tm env \<Rightarrow> SyncCMD \<Rightarrow> path \<Rightarrow> 'tm \<Rightarrow> string list \<Rightarrow>
    path \<Rightarrow> bool \<Rightarrow> error option \<Rightarrow> node \<Rightarrow> walk \<times> node" where
  "purgeVisit e cmd dataDir now indexedUIDs p dIsDir err t =
     (let cutoff = timeUnixNano e now - PurgeAfter cmd;
          nowStamp = timeFormat e RFC3339Nano now
      in case err of
        Some er \<Rightarrow> (WalkErr er, t)
      | None \<Rightarrow>
          if ctxErr e then (WalkNil, t)
          else if dIsDir then (WalkNil, t)
          else
            (let currentFileName = filepathBase p in
             if currentFileName \<noteq> filenameRecipeJSON
                \<and> currentFileName \<noteq> filenameRecipeDeleteMarker
             then (WalkNil, t)
             else
               (let dir = filepathDir p; uid = filepathBase dir in
                if uid \<in> set indexedUIDs then
                  (if currentFileName = filenameRecipeDeleteMarker then
                     (case osRemove e p t of
                        (Some er, t1) \<Rightarrow> (WalkErr er, t1)
                      | (None, t1) \<Rightarrow> (WalkSkipDir, t1))
                   else (WalkNil, t))
                else if PurgeAfter cmd = 0 then purgeDir e dir t
                else if currentFileName = filenameRecipeDeleteMarker then
                  (case readTimestampMarker e t p RFC3339Nano of
                     Inl er \<Rightarrow> (WalkErr er, t)
                   | Inr marker \<Rightarrow>
                       if timeUnixNano e marker > cutoff then (WalkSkipDir, t)
                       else purgeDir e dir t)
                else if currentFileName = filenameRecipeJSON
                then createMarker e dataDir uid nowStamp t
                else (WalkNil, t))))"

text \<open>
  \<^verbatim>\<open>filepath.WalkDir\<close> of the Go library, as its source has it: \<open>walkDir\<close> calls the
  function for the entry, reads a directory after that call, and walks the entries read;
  \<^verbatim>\<open>SkipDir\<close> from a directory skips it, and from a file it ends the loop over the
  directory that holds the file. The first argument bounds the depth of the walk:
  \<open>None\<close> says that the bound was too small.
\<close>

type_synonym visit = "path \<Rightarrow> bool \<Rightarrow> error option \<Rightarrow> node \<Rightarrow> walk \<times> node"

fun walkDir :: "nat \<Rightarrow> 'tm env \<Rightarrow> visit \<Rightarrow> path \<Rightarrow> bool \<Rightarrow> node \<Rightarrow> (walk \<times> node) option"
  and walkEntries ::
    "nat \<Rightarrow> 'tm env \<Rightarrow> visit \<Rightarrow> path \<Rightarrow> (string \<times> bool) list \<Rightarrow> node \<Rightarrow> (walk \<times> node) option"
  where
  "walkDir 0 e fn p d t = None"
| "walkDir (Suc k) e fn p d t =
     (case fn p d None t of
        (WalkNil, t1) \<Rightarrow>
          if \<not> d then Some (WalkNil, t1)
          else
            (case osReadDir e p t1 of
               Inl er \<Rightarrow>
                 (case fn p d (Some er) t1 of
                    (WalkSkipDir, t2) \<Rightarrow> Some (WalkNil, t2)
                  | (r, t2) \<Rightarrow> Some (r, t2))
             | Inr dirs \<Rightarrow> walkEntries k e fn p dirs t1)
      | (WalkSkipDir, t1) \<Rightarrow> if d then Some (WalkNil, t1) else Some (WalkSkipDir, t1)
      | (r, t1) \<Rightarrow> Some (r, t1))"
| "walkEntries k e fn p [] t = Some (WalkNil, t)"
| "walkEntries k e fn p ((name, d1) # rest) t =
     (case walkDir k e fn (p @ [name]) d1 t of
        None \<Rightarrow> None
      | Some (WalkNil, t1) \<Rightarrow> walkEntries k e fn p rest t1
      | Some (WalkSkipDir, t1) \<Rightarrow> Some (WalkNil, t1)
      | Some (r, t1) \<Rightarrow> Some (r, t1))"

text \<open>
  \<^verbatim>\<open>filepath.WalkDir(root, fn)\<close>: a root that \<^verbatim>\<open>os.Lstat\<close> cannot see is reported
  to the function (with no entry: the flag is not looked at), and \<^verbatim>\<open>SkipDir\<close> at the
  top is no error.
\<close>

definition WalkDir :: "nat \<Rightarrow> 'tm env \<Rightarrow> visit \<Rightarrow> path \<Rightarrow> node \<Rightarrow> (walk \<times> node) option" where
  "WalkDir fuel e fn root t =
     (case (case osLstat e root t of
              Inl er \<Rightarrow> Some (fn root False (Some er) t)
            | Inr d \<Rightarrow> walkDir fuel e fn root d t) of
        None \<Rightarrow> None
      | Some (WalkSkipDir, t') \<Rightarrow> Some (WalkNil, t')
      | Some (r, t') \<Rightarrow> Some (r, t'))"

text \<open>
  \<^verbatim>\<open>PurgeUnreferencedRecipes(ctx, dataDir, now, log)\<close>: the index file is decoded into
  the set of indexed UIDs, and the recipes directory is walked.
\<close>

definition PurgeUnreferencedRecipes ::
  "nat \<Rightarrow> 'tm env \<Rightarrow> SyncCMD \<Rightarrow> path \<Rightarrow> 'tm \<Rightarrow> node \<Rightarrow> (error option outcome \<times> node) option" where
  "PurgeUnreferencedRecipes fuel e cmd dataDir now t =
     (let indexPath = pathToRecipesIndexFile e dataDir in
      case osOpen e t indexPath of
        Inl err \<Rightarrow> Some (Returns (Some err), t)
      | Inr indexFile \<Rightarrow>
          (case readAll e indexPath indexFile of
             Inl err \<Rightarrow> Some (Returns (Some err), t)
           | Inr body \<Rightarrow>
               (case jsonDecodeIndex e body of
                  None \<Rightarrow> Some (Returns (Some ErrJSON), t)
                | Some index \<Rightarrow>
                    (let indexedUIDs = map UID index;
                         recipesDataRoot = pathToRecipesDir e dataDir
                     in case WalkDir fuel e (purgeVisit e cmd dataDir now indexedUIDs)
                               recipesDataRoot t of
                          None \<Rightarrow> None
                        | Some (WalkNil, t') \<Rightarrow> Some (Returns None, t')
                        | Some (WalkSkipDir, t') \<Rightarrow> Some (Returns None, t')
                        | Some (WalkErr err, t') \<Rightarrow> Some (Returns (Some err), t')
                        | Some (WalkPanic, t') \<Rightarrow> Some (Panics, t')))))"

section \<open>Pruning of fileless subtrees (sync.go)\<close>

text \<open>
  \<^verbatim>\<open>pruneDir(dir)\<close> only reads and removes below \<^verbatim>\<open>dir\<close>, so it is given the
  directory as \<^verbatim>\<open>os.ReadDir\<close> finds it and returns what is left of it.
  \<open>pruneEntries\<close> is its first loop, over the entries read, with the entries already
  visited in \<open>visited\<close>; \<open>removeChildren\<close> is its second loop, over
  \<^verbatim>\<open>emptyChildren\<close>, which holds the names of the fileless children.
\<close>

fun removeChildren ::
  "'tm env \<Rightarrow> path \<Rightarrow> string list \<Rightarrow> (string \<times> node) list \<Rightarrow> error option \<times> (string \<times> node) list"
  where
  "removeChildren e dir [] es = (None, es)"
| "removeChildren e dir (name # ps) es =
     (if ctxErr e then (Some ErrCanceled, es)
      else if fails e OpRemoveAll (dir @ [name]) then (Some (ErrRemove (dir @ [name]) EACCES), es)
      else removeChildren e dir ps (AList.delete name es))"

fun pruneDir :: "'tm env \<Rightarrow> path \<Rightarrow> node \<Rightarrow> (bool \<times> error option) \<times> node"
  and pruneEntries ::
    "'tm env \<Rightarrow> path \<Rightarrow> (string \<times> node) list \<Rightarrow> (string \<times> node) list \<Rightarrow> bool \<Rightarrow> string list \<Rightarrow>
      (error + bool \<times> string list) \<times> (string \<times> node) list"
  where
  "pruneDir e dir (File s) =
     (if ctxErr e then ((False, Some ErrCanceled), File s)
      else ((False, Some (ErrReadDir dir ENOTDIR)), File s))"
| "pruneDir e dir (Dir es) =
     (if ctxErr e then ((False, Some ErrCanceled), Dir es)
      else if fails e OpReadDir dir then ((False, Some (ErrReadDir dir EACCES)), Dir es)
      else
        (case pruneEntries e dir [] es True [] of
           (Inl err, es1) \<Rightarrow> ((False, Some err), Dir es1)
         | (Inr (hasOnlyDirs, emptyChildren), es1) \<Rightarrow>
             if \<not> hasOnlyDirs then
               (case removeChildren e dir emptyChildren es1 of
                  (Some err, es2) \<Rightarrow> ((False, Some err), Dir es2)
                | (None, es2) \<Rightarrow> ((hasOnlyDirs, None), Dir es2))
             else ((hasOnlyDirs, None), Dir es1)))"
| "pruneEntries e dir visited [] hasOnlyDirs emptyChildren =
     (Inr (hasOnlyDirs, emptyChildren), visited)"
| "pruneEntries e dir visited ((name, ch) # rest) hasOnlyDirs emptyChildren =
     (if ctxErr e then (Inl ErrCanceled, visited @ (name, ch) # rest)
      else if \<not> isDir ch
      then pruneEntries e dir (visited @ [(name, ch)]) rest False emptyChildren
      else
        (case pruneDir e (dir @ [name]) ch of
           ((b, Some err), ch') \<Rightarrow> (Inl err, visited @ (name, ch') # rest)
         | ((childHasOnlyDirs, None), ch') \<Rightarrow>
             if childHasOnlyDirs
             then pruneEntries e dir (visited @ [(name, ch')]) rest hasOnlyDirs
                    (emptyChildren @ [name])
             else pruneEntries e dir (visited @ [(name, ch')]) rest False emptyChildren))"

text \<open>
  The loop of \<^verbatim>\<open>PruneFilelessSubtrees\<close> over the entries of the root: files are
  passed over, and a child that \<^verbatim>\<open>pruneDir\<close> reports fileless is removed at once.
\<close>

fun pruneRootEntries ::
  "'tm env \<Rightarrow> path \<Rightarrow> (string \<times> node) list \<Rightarrow> (string \<times> node) list \<Rightarrow>
    error option \<times> (string \<times> node) list"
  where
  "pruneRootEntries e root visited [] = (None, visited)"
| "pruneRootEntries e root visited ((name, ch) # rest) =
     (if \<not> isDir ch then pruneRootEntries e root (visited @ [(name, ch)]) rest
      else
        (case pruneDir e (root @ [name]) ch of
           ((b, Some err), ch') \<Rightarrow> (Some err, visited @ (name, ch') # rest)
         | ((childHasOnlyDirs, None), ch') \<Rightarrow>
             if childHasOnlyDirs then
               (if ctxErr e then (Some ErrCanceled, visited @ (name, ch') # rest)
                else if fails e OpRemoveAll (root @ [name])
                then (Some (ErrRemove (root @ [name]) EACCES), visited @ (name, ch') # rest)
                else pruneRootEntries e root visited rest)
             else pruneRootEntries e root (visited @ [(name, ch')]) rest))"

definition PruneFilelessSubtrees :: "'tm env \<Rightarrow> path \<Rightarrow> node \<Rightarrow> error option \<times> node" where
  "PruneFilelessSubtrees e root t =
     (if fails e OpReadDir root then (Some (ErrReadRoot root EACCES), t)
      else case lookup t root of
        None \<Rightarrow> (Some (ErrReadRoot root ENOENT), t)
      | Some (File s) \<Rightarrow> (Some (ErrReadRoot root ENOTDIR), t)
      | Some (Dir es) \<Rightarrow>
          (case pruneRootEntries e root [] es of
             (err, es') \<Rightarrow> (err, putAt root (Dir es') t)))"

section \<open>The sync command (sync.go)\<close>

text \<open>
  \<^verbatim>\<open>SaveCategoriesIndex\<close>. When the API call fails the error is logged with
  \<^verbatim>\<open>log.Fatal()\<close>, and zerolog ends the process with \<^verbatim>\<open>os.Exit(1)\<close> when the
  message of a fatal event is sent: the \<^verbatim>\<open>return err\<close> after it is never reached.
\<close>

definition SaveCategoriesIndex :: "'tm env \<Rightarrow> CLI \<Rightarrow> node \<Rightarrow> error option outcome \<times> node" where
  "SaveCategoriesIndex e cli t =
     (case apiCategories e of
        Inl err \<Rightarrow> (Exits 1, t)
      | Inr categories \<Rightarrow>
          (case saveAsJSON e (jsonEncodeCategories e categories)
                  (pathToCategoriesIndexFile e (DataDir cli)) t of
             (err, t') \<Rightarrow> (Returns err, t')))"

definition SaveRecipesIndex :: "'tm env \<Rightarrow> CLI \<Rightarrow> node \<Rightarrow> (RecipeItem list \<times> error option) \<times> node" where
  "SaveRecipesIndex e cli t =
     (case apiRecipes e of
        (recipesIndex, Some err) \<Rightarrow> ((recipesIndex, Some err), t)
      | (recipesIndex, None) \<Rightarrow>
          (case saveAsJSON e (jsonEncodeIndex e recipesIndex)
                  (pathToRecipesIndexFile e (DataDir cli)) t of
             (err, t') \<Rightarrow> ((recipesIndex, err), t')))"

text \<open>
  The workers, taken together, as one loop over the queue in the order of the index:
  each item is handled by one worker, and a failed item sets the flag and does not stop
  the loop. A cancelled context stops it.
\<close>

fun drainQueue :: "'tm env \<Rightarrow> CLI \<Rightarrow> RecipeItem list \<Rightarrow> bool \<Rightarrow> world \<Rightarrow> bool outcome \<times> world" where
  "drainQueue e cli [] exitWithErrors w = (Returns exitWithErrors, w)"
| "drainQueue e cli (ref # queue) exitWithErrors w =
     (if ctxErr e then (Returns exitWithErrors, w)
      else case UpsertRecipe e cli ref w of
        (Returns (saved, err), w') \<Rightarrow> drainQueue e cli queue (exitWithErrors \<or> err \<noteq> None) w'
      | (Exits c, w') \<Rightarrow> (Exits c, w')
      | (Panics, w') \<Rightarrow> (Panics, w')
      | (Blocks, w') \<Rightarrow> (Blocks, w'))"

text \<open>
  The recipes branch of \<^verbatim>\<open>Run\<close>: the producer saves the index and sends its items
  to a channel of capacity \<^verbatim>\<open>DownloadConcurrency\<close>, which as many workers drain. With
  no worker receiving (none started, or the context cancelled) the producer blocks on the
  first item the channel has no room for.
\<close>

definition syncRecipes :: "'tm env \<Rightarrow> SyncCMD \<Rightarrow> CLI \<Rightarrow> bool \<Rightarrow> world \<Rightarrow> bool outcome \<times> world" where
  "syncRecipes e cmd cli exitWithErrors w =
     (if DownloadConcurrency cmd < 0 then (Panics, w)
      else case SaveRecipesIndex e cli (fs w) of
        ((recipeIndexItems, err), t1) \<Rightarrow>
          (let flag = (exitWithErrors \<or> err \<noteq> None); w1 = w\<lparr>fs := t1\<rparr> in
           if DownloadConcurrency cmd = 0 \<or> ctxErr e then
             (if DownloadConcurrency cmd < int (length recipeIndexItems) then (Blocks, w1)
              else (Returns flag, w1))
           else drainQueue e cli recipeIndexItems flag w1))"

text \<open>
  The part of \<^verbatim>\<open>Run\<close> up to \<^verbatim>\<open>wg.Wait()\<close>, with the tasks of the wait group taken
  in the order in which they are started. Its result is the flag
  \<^verbatim>\<open>exitWithErrors\<close>.
\<close>

definition syncPhase :: "'tm env \<Rightarrow> SyncCMD \<Rightarrow> CLI \<Rightarrow> world \<Rightarrow> bool outcome \<times> world" where
  "syncPhase e cmd cli w =
     (case (if IncludeCategories cmd then
              (case SaveCategoriesIndex e cli (fs w) of
                 (Returns err, t1) \<Rightarrow> (Returns (err \<noteq> None), w\<lparr>fs := t1\<rparr>)
               | (Exits c, t1) \<Rightarrow> (Exits c, w\<lparr>fs := t1\<rparr>)
               | (Panics, t1) \<Rightarrow> (Panics, w\<lparr>fs := t1\<rparr>)
               | (Blocks, t1) \<Rightarrow> (Blocks, w\<lparr>fs := t1\<rparr>))
            else (Returns False, w)) of
        (Returns exitWithErrors, w1) \<Rightarrow>
          if IncludeRecipes cmd then syncRecipes e cmd cli exitWithErrors w1
          else (Returns exitWithErrors, w1)
      | (r, w1) \<Rightarrow> (r, w1))"

text \<open>
  The part of \<^verbatim>\<open>Run\<close> after \<^verbatim>\<open>wg.Wait()\<close>: purge and pruning, under their guard.
  Its result is the flag \<^verbatim>\<open>exitWithErrors\<close> at the end.
\<close>

definition purgePhase ::
  "nat \<Rightarrow> 'tm env \<Rightarrow> SyncCMD \<Rightarrow> CLI \<Rightarrow> 'tm \<Rightarrow> bool \<Rightarrow> node \<Rightarrow> (bool outcome \<times> node) option" where
  "purgePhase fuel e cmd cli now exitWithErrors t =
     (if \<not> exitWithErrors \<and> PurgeAfter cmd \<ge> 0 then
        (case PurgeUnreferencedRecipes fuel e cmd (DataDir cli) now t of
           None \<Rightarrow> None
         | Some (Returns (Some err), t1) \<Rightarrow> Some (Returns True, t1)
         | Some (Returns None, t1) \<Rightarrow>
             (case PruneFilelessSubtrees e (pathToRecipesDir e (DataDir cli)) t1 of
                (Some err, t2) \<Rightarrow> Some (Returns True, t2)
              | (None, t2) \<Rightarrow> Some (Returns exitWithErrors, t2))
         | Some (Exits c, t1) \<Rightarrow> Some (Exits c, t1)
         | Some (Panics, t1) \<Rightarrow> Some (Panics, t1)
         | Some (Blocks, t1) \<Rightarrow> Some (Blocks, t1))
      else Some (Returns exitWithErrors, t))"

text \<open>
  \<^verbatim>\<open>SyncCMD.Run\<close>, with \<open>now\<close> the value of \<^verbatim>\<open>time.Now()\<close> and \<open>fuel\<close> the bound
  on the depth of the walk.
\<close>

definition Run ::
  "nat \<Rightarrow> 'tm env \<Rightarrow> SyncCMD \<Rightarrow> CLI \<Rightarrow> 'tm \<Rightarrow> world \<Rightarrow> (error option outcome \<times> world) option" where
  "Run fuel e cmd cli now w =
     (case syncPhase e cmd cli w of
        (Returns exitWithErrors, w1) \<Rightarrow>
          (case purgePhase fuel e cmd cli now exitWithErrors (fs w1) of
             None \<Rightarrow> None
           | Some (Returns flag, t2) \<Rightarrow>
               Some (Returns (if flag then Some ErrSyncCompletedWithErrors else None),
                     w1\<lparr>fs := t2\<rparr>)
           | Some (Exits c, t2) \<Rightarrow> Some (Exits c, w1\<lparr>fs := t2\<rparr>)
           | Some (Panics, t2) \<Rightarrow> Some (Panics, w1\<lparr>fs := t2\<rparr>)
           | Some (Blocks, t2) \<Rightarrow> Some (Blocks, w1\<lparr>fs := t2\<rparr>))
      | (Exits c, w1) \<Rightarrow> Some (Exits c, w1)
      | (Panics, w1) \<Rightarrow> Some (Panics, w1)
      | (Blocks, w1) \<Rightarrow> Some (Blocks, w1))"

section \<open>Times and the layout RFC3339Nano\<close>

text \<open>
  A \<^verbatim>\<open>time.Time\<close> as the layout shows it: the date and the clock in the zone of the
  time, the nanosecond, and the offset of the zone in seconds east of UTC. The functions
  below follow \<^verbatim>\<open>appendFormatRFC3339\<close> and \<^verbatim>\<open>parseRFC3339\<close> of the Go library,
  which \<^verbatim>\<open>Format\<close> and \<^verbatim>\<open>Parse\<close> use for this layout.
\<close>

record gotime =
  Year :: int
  Month :: int
  Day :: int
  Hour :: int
  Minute :: int
  Second :: int
  Nanosecond :: int
  ZoneOffset :: int

definition isDigit :: "char \<Rightarrow> bool" where
  "isDigit c = (CHR ''0'' \<le> c \<and> c \<le> CHR ''9'')"

definition digitVal :: "char \<Rightarrow> int" where
  "digitVal c = of_char c - 48"

definition digitChar :: "int \<Rightarrow> char" where
  "digitChar d = char_of (48 + d)"

text \<open>The last \<open>w\<close> decimal digits of \<open>x\<close>, and the number of digits of \<open>x\<close>.\<close>

fun digits :: "nat \<Rightarrow> int \<Rightarrow> string" where
  "digits 0 x = []"
| "digits (Suc w) x = digits w (x div 10) @ [digitChar (x mod 10)]"

function numDigits :: "int \<Rightarrow> nat" where
  "numDigits x = (if x < 10 then 1 else Suc (numDigits (x div 10)))"
  by pat_completeness auto
termination
  by (relation "measure nat") auto

declare numDigits.simps [simp del]

text \<open>
  \<^verbatim>\<open>appendInt(b, x, width)\<close>: the sign of a negative number, and at least
  \<open>width\<close> digits, padded with zeros.
\<close>

definition appendInt :: "int \<Rightarrow> nat \<Rightarrow> string" where
  "appendInt x width =
     (if x < 0 then CHR ''-'' # digits (max width (numDigits (- x))) (- x)
      else digits (max width (numDigits x)) x)"

definition decVal :: "string \<Rightarrow> int" where
  "decVal s = foldl (\<lambda>x c. x * 10 + digitVal c) 0 s"

definition isLeap :: "int \<Rightarrow> bool" where
  "isLeap y = (y mod 4 = 0 \<and> (y mod 100 \<noteq> 0 \<or> y mod 400 = 0))"

definition daysIn :: "int \<Rightarrow> int \<Rightarrow> int" where
  "daysIn m y =
     (if m = 2 then (if isLeap y then 29 else 28)
      else if m = 4 \<or> m = 6 \<or> m = 9 \<or> m = 11 then 30
      else 31)"

text \<open>
  \<^verbatim>\<open>appendNano\<close> for the nine nines of the layout: nothing for a whole second,
  otherwise the point and nine digits without their trailing zeros.
\<close>

definition trimZeros :: "string \<Rightarrow> string" where
  "trimZeros s = rev (dropWhile (\<lambda>c. c = CHR ''0'') (rev s))"

definition appendNano :: "int \<Rightarrow> string" where
  "appendNano ns = (if ns = 0 then [] else CHR ''.'' # trimZeros (appendInt ns 9))"

text \<open>
  The zone: \<^verbatim>\<open>Z\<close> for the offset 0, otherwise the sign, hours and minutes of the
  offset, its seconds cut off (Go divides towards zero).
\<close>

definition formatZone :: "int \<Rightarrow> string" where
  "formatZone offset =
     (if offset = 0 then ''Z''
      else
        (let zone = (if offset < 0 then - ((- offset) div 60) else offset div 60) in
         (if zone < 0 then ''-'' else ''+'')
           @ appendInt (\<bar>zone\<bar> div 60) 2 @ '':'' @ appendInt (\<bar>zone\<bar> mod 60) 2))"

definition formatClock :: "gotime \<Rightarrow> string" where
  "formatClock t =
     appendInt (Year t) 4 @ ''-'' @ appendInt (Month t) 2 @ ''-'' @ appendInt (Day t) 2
       @ ''T'' @ appendInt (Hour t) 2 @ '':'' @ appendInt (Minute t) 2 @ '':''
       @ appendInt (Second t) 2"

definition formatRFC3339Nano :: "gotime \<Rightarrow> string" where
  "formatRFC3339Nano t = formatClock t @ appendNano (Nanosecond t) @ formatZone (ZoneOffset t)"

text \<open>
  \<^verbatim>\<open>parseUint\<close> of \<^verbatim>\<open>parseRFC3339\<close>: a decimal number within a range. The date
  and the clock stand at fixed places in the first 19 bytes.
\<close>

definition parseUint :: "string \<Rightarrow> int \<Rightarrow> int \<Rightarrow> int option" where
  "parseUint s lo hi =
     (if list_all isDigit s \<and> lo \<le> decVal s \<and> decVal s \<le> hi then Some (decVal s) else None)"

definition slice :: "string \<Rightarrow> nat \<Rightarrow> nat \<Rightarrow> string" where
  "slice s i j = take (j - i) (drop i s)"

definition parseClock :: "string \<Rightarrow> gotime option" where
  "parseClock s =
     (if length s < 19 then None
      else case parseUint (slice s 0 4) 0 9999 of
        None \<Rightarrow> None
      | Some year \<Rightarrow>
      (case parseUint (slice s 5 7) 1 12 of
        None \<Rightarrow> None
      | Some month \<Rightarrow>
      (case parseUint (slice s 8 10) 1 (daysIn month year) of
        None \<Rightarrow> None
      | Some day \<Rightarrow>
      (case parseUint (slice s 11 13) 0 23 of
        None \<Rightarrow> None
      | Some hour \<Rightarrow>
      (case parseUint (slice s 14 16) 0 59 of
        None \<Rightarrow> None
      | Some minute \<Rightarrow>
      (case parseUint (slice s 17 19) 0 59 of
        None \<Rightarrow> None
      | Some sec \<Rightarrow>
          if s ! 4 = CHR ''-'' \<and> s ! 7 = CHR ''-'' \<and> s ! 10 = CHR ''T''
             \<and> s ! 13 = CHR '':'' \<and> s ! 16 = CHR '':''
          then Some \<lparr>Year = year, Month = month, Day = day, Hour = hour, Minute = minute,
                     Second = sec, Nanosecond = 0, ZoneOffset = 0\<rparr>
          else None))))))"

text \<open>
  The fractional second: a point and digits, of which \<^verbatim>\<open>parseNanoseconds\<close> reads at
  most nine. The result is the nanosecond and the rest of the text.
\<close>

definition parseFraction :: "string \<Rightarrow> int \<times> string" where
  "parseFraction s =
     (if 2 \<le> length s \<and> s ! 0 = CHR ''.'' \<and> isDigit (s ! 1) then
        (let n = Suc (length (takeWhile isDigit (drop 1 s)));
             nbytes = min n 10
         in (decVal (slice s 1 nbytes) * 10 ^ (10 - nbytes), drop n s))
      else (0, s))"

definition parseZone :: "string \<Rightarrow> int option" where
  "parseZone s =
     (if s = ''Z'' then Some 0
      else if length s \<noteq> 6 then None
      else case parseUint (slice s 1 3) 0 23 of
        None \<Rightarrow> None
      | Some hr \<Rightarrow>
      (case parseUint (slice s 4 6) 0 59 of
        None \<Rightarrow> None
      | Some mm \<Rightarrow>
          if (s ! 0 = CHR ''-'' \<or> s ! 0 = CHR ''+'') \<and> s ! 3 = CHR '':''
          then Some (if s ! 0 = CHR ''-'' then - ((hr * 60 + mm) * 60)
                     else (hr * 60 + mm) * 60)
          else None))"

definition parseRFC3339 :: "string \<Rightarrow> gotime option" where
  "parseRFC3339 s =
     (case parseClock s of
        None \<Rightarrow> None
      | Some t \<Rightarrow>
          (case parseFraction (drop 19 s) of
             (nsec, rest) \<Rightarrow>
               (case parseZone rest of
                  None \<Rightarrow> None
                | Some offset \<Rightarrow> Some (t\<lparr>Nanosecond := nsec, ZoneOffset := offset\<rparr>))))"

text \<open>
  \<^verbatim>\<open>Format\<close> and \<^verbatim>\<open>Parse\<close> for the layout of the markers; other layouts are not
  modelled.
\<close>

definition goFormat :: "string \<Rightarrow> gotime \<Rightarrow> string" where
  "goFormat layout t = (if layout = RFC3339Nano then formatRFC3339Nano t else [])"

definition goParse :: "string \<Rightarrow> string \<Rightarrow> gotime option" where
  "goParse layout s = (if layout = RFC3339Nano then parseRFC3339 s else None)"

text \<open>The instant of a time, in nanoseconds since 1970-01-01T00:00:00Z.\<close>

definition daysBeforeYear :: "int \<Rightarrow> int" where
  "daysBeforeYear y = 365 * y + (y + 3) div 4 - (y + 99) div 100 + (y + 399) div 400"

definition daysBeforeMonth :: "int \<Rightarrow> int \<Rightarrow> int" where
  "daysBeforeMonth m y = sum_list (map (\<lambda>k. daysIn k y) [1..m - 1])"

definition goUnixNano :: "gotime \<Rightarrow> int" where
  "goUnixNano t =
     (((daysBeforeYear (Year t) + daysBeforeMonth (Month t) (Year t) + Day t - 1 - 719528)
          * 86400
        + Hour t * 3600 + Minute t * 60 + Second t - ZoneOffset t)
       * 1000000000
      + Nanosecond t)"

text \<open>The times that the layout can express.\<close>

definition validTime :: "gotime \<Rightarrow> bool" where
  "validTime t =
     (0 \<le> Year t \<and> Year t \<le> 9999 \<and> 1 \<le> Month t \<and> Month t \<le> 12
      \<and> 1 \<le> Day t \<and> Day t \<le> daysIn (Month t) (Year t)
      \<and> 0 \<le> Hour t \<and> Hour t \<le> 23 \<and> 0 \<le> Minute t \<and> Minute t \<le> 59
      \<and> 0 \<le> Second t \<and> Second t \<le> 59
      \<and> 0 \<le> Nanosecond t \<and> Nanosecond t \<le> 999999999
      \<and> ZoneOffset t mod 60 = 0 \<and> \<bar>ZoneOffset t\<bar> \<le> 86340)"

section \<open>Notions of the specification\<close>











text \<open>
  A directory is fileless if every entry in it is itself a directory and every one of
  those is fileless. \<open>pruned\<close> is a directory without its fileless subdirectories, at
  every depth.
\<close>

fun fileless :: "node \<Rightarrow> bool" where
  "fileless (File s) = False"
| "fileless (Dir es) = list_all (\<lambda>(name, n). fileless n) es"

fun pruned :: "node \<Rightarrow> node" where
  "pruned (File s) = File s"
| "pruned (Dir es) =
     Dir (map (\<lambda>(name, n). (name, pruned n)) (filter (\<lambda>(name, n). \<not> fileless n) es))"

text \<open>No call is refused and the context is live.\<close>

definition noFailure :: "'tm env \<Rightarrow> bool" where
  "noFailure e = (\<not> ctxErr e \<and> (\<forall>opn p. \<not> fails e opn p))"

text \<open>
  What \<open>pruneDir\<close> leaves of a directory: a fileless one is left to the caller, whole;
  any other loses its fileless subdirectories.
\<close>

definition keep :: "node \<Rightarrow> node" where
  "keep n = (if fileless n then n else pruned n)"

section \<open>Example values\<close>

text \<open>
  An environment in which no file system call is refused and the context is live. Its
  JSON decoder knows the recipe files of the examples; its API serves the index and the
  records of \<^verbatim>\<open>TestSyncRunSuccess\<close>.
\<close>

definition exDecodeItem :: "string \<Rightarrow> RecipeItem option" where
  \<open>exDecodeItem body =
     (if body = ''{"uid":"abc","hash":"h3"}'' then Some \<lparr>UID = ''abc'', Hash = ''h3''\<rparr>
      else if body = ''{"uid":"abc","hash":"old"}'' then Some \<lparr>UID = ''abc'', Hash = ''old''\<rparr>
      else if body = ''{"uid":"abcde","hash":"h1","name":"First"}''
        then Some \<lparr>UID = ''abcde'', Hash = ''h1''\<rparr>
      else if body = ''{"uid":"vwxyz","hash":"new-hash","name":"Second"}''
        then Some \<lparr>UID = ''vwxyz'', Hash = ''new-hash''\<rparr>
      else None)\<close>

definition exEncodeRecipe :: "Recipe \<Rightarrow> string" where
  \<open>exEncodeRecipe r =
     ''{"uid":"'' @ UID r @ ''","hash":"'' @ Hash r @ ''","name":"'' @ Fields r @ ''"}''\<close>

definition exIndex :: "RecipeItem list" where
  "exIndex = [\<lparr>UID = ''abcde'', Hash = ''h1''\<rparr>, \<lparr>UID = ''vwxyz'', Hash = ''h2''\<rparr>]"

definition exApiRecipe :: "string \<Rightarrow> error + Recipe" where
  "exApiRecipe uid =
     (if uid = ''abcde'' then Inr \<lparr>UID = ''abcde'', Hash = ''h1'', Fields = ''First''\<rparr>
      else if uid = ''vwxyz'' then Inr \<lparr>UID = ''vwxyz'', Hash = ''new-hash'', Fields = ''Second''\<rparr>
      else if uid = ''badid'' then Inr \<lparr>UID = ''other'', Hash = ''h1'', Fields = []\<rparr>
      else Inl (ErrAPI ''404''))"

definition exEnv :: "'tm env" where
  "exEnv =
     \<lparr>lookupEnv = (\<lambda>name. None),
      fails = (\<lambda>opn p. False),
      ctxErr = False,
      jsonDecodeItem = exDecodeItem,
      jsonDecodeIndex = (\<lambda>body. if body = ''INDEX'' then Some exIndex else None),
      jsonEncodeRecipe = exEncodeRecipe,
      jsonEncodeIndex = (\<lambda>items. ''INDEX''),
      jsonEncodeCategories = (\<lambda>cs. ''CATEGORIES''),
      apiRecipes = (exIndex, None),
      apiRecipe = exApiRecipe,
      apiCategories = Inr [(''cat1'', ''Lunch'')],
      timeParse = (\<lambda>layout s. None),
      timeFormat = (\<lambda>layout tm. []),
      timeUnixNano = (\<lambda>tm. 0)\<rparr>"

definition exCLI :: CLI where
  "exCLI = \<lparr>DataDir = [''data'']\<rparr>"

text \<open>The four states of the file of \<^verbatim>\<open>TestShouldSaveRecipe\<close>.\<close>

definition exTreeMissing :: node where
  "exTreeMissing = Dir [(''tmp'', Dir [])]"

definition exTreeInvalid :: node where
  "exTreeInvalid = Dir [(''tmp'', Dir [(''recipe.json'', File ''{not-json'')])]"

definition exBodyH3 :: string where
  \<open>exBodyH3 = ''{"uid":"abc","hash":"h3"}''\<close>

definition exBodyOld :: string where
  \<open>exBodyOld = ''{"uid":"abc","hash":"old"}''\<close>

definition exTreeH3 :: node where
  "exTreeH3 = Dir [(''tmp'', Dir [(''recipe.json'', File exBodyH3)])]"

definition exTreeOld :: node where
  "exTreeOld = Dir [(''tmp'', Dir [(''recipe.json'', File exBodyOld)])]"

definition exWorld0 :: world where
  "exWorld0 = \<lparr>fs = Dir [], fetched = []\<rparr>"

text \<open>The command with its defaults (no purge), and with immediate purge.\<close>

definition exCmdNoPurge :: SyncCMD where
  "exCmdNoPurge =
     \<lparr>IncludeRecipes = True, PurgeAfter = - 1000000000, IncludeCategories = True,
      DownloadConcurrency = 10\<rparr>"

definition exCmdImmediate :: SyncCMD where
  "exCmdImmediate =
     \<lparr>IncludeRecipes = False, PurgeAfter = 0, IncludeCategories = False,
      DownloadConcurrency = 10\<rparr>"

text \<open>
  A data directory with the index of the examples and the recipe \<^verbatim>\<open>old11\<close>, which
  the index does not list.
\<close>

definition exTreeOld11 :: node where
  \<open>exTreeOld11 =
     Dir [(''data'',
       Dir [(''recipes'',
              Dir [(''ol'', Dir [(''old'', Dir [(''old11'',
                Dir [(''recipe.json'', File ''{"uid":"old11"}'')])])])]),
            (''recipes-index.json'', File ''INDEX'')])]\<close>

definition exTreeOld11Purged :: node where
  "exTreeOld11Purged =
     Dir [(''data'', Dir [(''recipes'', Dir []), (''recipes-index.json'', File ''INDEX'')])]"

text \<open>An environment in which every \<^verbatim>\<open>os.RemoveAll\<close> is refused.\<close>

definition exEnvDenied :: "'tm env" where
  "exEnvDenied = exEnv\<lparr>fails := (\<lambda>opn p. opn = OpRemoveAll)\<rparr>"

text \<open>The tree of \<^verbatim>\<open>TestPruneFilelessSubtrees\<close>, and a root with no file below it.\<close>

definition exTreePrune :: node where
  "exTreePrune =
     Dir [(''tmp'',
       Dir [(''keep'', Dir [(''child'', Dir [(''file.txt'', File ''data'')])]),
            (''remove'', Dir [(''empty'', Dir [(''nested'', Dir [])])])])]"

definition exTreeHollow :: node where
  "exTreeHollow = Dir [(''tmp'', Dir [(''a'', Dir [(''b'', Dir [])]), (''c'', Dir [])])]"

text \<open>The environment of the examples with the times of the Go library.\<close>

definition exGoEnv :: "gotime env" where
  "exGoEnv = exEnv\<lparr>timeParse := goParse, timeFormat := goFormat, timeUnixNano := goUnixNano\<rparr>"

definition exTime2023 :: gotime where
  "exTime2023 =
     \<lparr>Year = 2023, Month = 5, Day = 6, Hour = 7, Minute = 8, Second = 9, Nanosecond = 0,
      ZoneOffset = 0\<rparr>"

text \<open>
  A grace period of 24 hours, the time of \<^verbatim>\<open>TestPurgeUnreferencedRecipes\<close>, and the
  time 24 hours before it.
\<close>

definition exCmd24h :: SyncCMD where
  "exCmd24h =
     \<lparr>IncludeRecipes = False, PurgeAfter = 86400000000000, IncludeCategories = False,
      DownloadConcurrency = 10\<rparr>"

definition exNow :: gotime where
  "exNow =
     \<lparr>Year = 2024, Month = 1, Day = 2, Hour = 15, Minute = 4, Second = 5, Nanosecond = 0,
      ZoneOffset = 0\<rparr>"

definition exNowMinus24h :: gotime where
  "exNowMinus24h =
     \<lparr>Year = 2024, Month = 1, Day = 1, Hour = 15, Minute = 4, Second = 5, Nanosecond = 0,
      ZoneOffset = 0\<rparr>"

text \<open>
  The directory of the unlisted recipe \<^verbatim>\<open>old11\<close> with a marker of a given text, and
  the tree without that directory.
\<close>

definition exDirOld11 :: path where
  "exDirOld11 = [''data'', ''recipes'', ''ol'', ''old'', ''old11'']"

definition exBodyOld11 :: string where
  \<open>exBodyOld11 = ''{"uid":"old11","hash":"old"}''\<close>

definition exTreeMarked :: "string \<Rightarrow> node" where
  "exTreeMarked body =
     Dir [(''data'',
       Dir [(''recipes'',
              Dir [(''ol'', Dir [(''old'', Dir [(''old11'',
                Dir [(''.delete-marker'', File body), (''recipe.json'', File exBodyOld11)])])])]),
            (''recipes-index.json'', File ''INDEX'')])]"

definition exTreeOld11Removed :: node where
  "exTreeOld11Removed =
     Dir [(''data'',
       Dir [(''recipes'', Dir [(''ol'', Dir [(''old'', Dir [])])]),
            (''recipes-index.json'', File ''INDEX'')])]"

text \<open>
  The recipe \<^verbatim>\<open>abcde\<close> of the index with a marker left from an earlier run, and the
  same tree without the marker.
\<close>

definition exDirAbcde :: path where
  "exDirAbcde = [''data'', ''recipes'', ''ab'', ''abc'', ''abcde'']"

definition exBodyAbcde :: string where
  \<open>exBodyAbcde = ''{"uid":"abcde","hash":"h1","name":"First"}''\<close>

definition exTreeReappeared :: node where
  "exTreeReappeared =
     Dir [(''data'',
       Dir [(''recipes'',
              Dir [(''ab'', Dir [(''abc'', Dir [(''abcde'',
                Dir [(''.delete-marker'', File ''2024-01-01T15:04:05Z''),
                     (''recipe.json'', File exBodyAbcde)])])])]),
            (''recipes-index.json'', File ''INDEX'')])]"

definition exTreeReappearedAfter :: node where
  "exTreeReappearedAfter =
     Dir [(''data'',
       Dir [(''recipes'',
              Dir [(''ab'', Dir [(''abc'', Dir [(''abcde'',
                Dir [(''recipe.json'', File exBodyAbcde)])])])]),
            (''recipes-index.json'', File ''INDEX'')])]"







section \<open>The decision table of shouldSaveRecipe\<close>

text \<open>
  Claim C1. For every path and candidate hash, \<open>shouldSaveRecipe\<close> gives the decision
  table of the specification: a file that cannot be opened (it is missing) gives
  (update, not exists); a file that is there but does not decode gives (update, exists);
  a file that decodes with the candidate hash gives (no update, exists); a file that
  decodes with another hash gives (update, exists).
\<close>

theorem shouldSaveRecipe_table:
  "(osOpen e t p = Inl err \<longrightarrow> shouldSaveRecipe e t p hash = (True, False))
   \<and> (osOpen e t p = Inr f \<and> (readAll e p f = Inl err
          \<or> (readAll e p f = Inr body \<and> jsonDecodeItem e body = None))
        \<longrightarrow> shouldSaveRecipe e t p hash = (True, True))
   \<and> (osOpen e t p = Inr f \<and> readAll e p f = Inr body \<and> jsonDecodeItem e body = Some item
        \<longrightarrow> shouldSaveRecipe e t p hash = (if Hash item = hash then (False, True) else (True, True)))"
  by (auto simp add: shouldSaveRecipe_def)

theorem shouldSaveRecipe_table_witness:
  \<open>shouldSaveRecipe (exEnv :: unit env) exTreeMissing [''tmp'', ''recipe.json''] ''h1'' = (True, False)
   \<and> shouldSaveRecipe (exEnv :: unit env) exTreeInvalid [''tmp'', ''recipe.json''] ''h2'' = (True, True)
   \<and> shouldSaveRecipe (exEnv :: unit env) exTreeH3 [''tmp'', ''recipe.json''] ''h3'' = (False, True)
   \<and> shouldSaveRecipe (exEnv :: unit env) exTreeOld [''tmp'', ''recipe.json''] ''new'' = (True, True)\<close>
proof -
  let ?e = "exEnv :: unit env" and ?p = "[''tmp'', ''recipe.json'']"
  have o1: "osOpen ?e exTreeMissing ?p = Inl ENOENT"
    by (simp add: osOpen_def exEnv_def exTreeMissing_def)
  have o2: "osOpen ?e exTreeInvalid ?p = Inr (File ''{not-json'')
      \<and> (readAll ?e ?p (File ''{not-json'') = Inl ENOENT
         \<or> (readAll ?e ?p (File ''{not-json'') = Inr ''{not-json''
            \<and> jsonDecodeItem ?e ''{not-json'' = None))"
    by (simp add: osOpen_def readAll_def exEnv_def exTreeInvalid_def exDecodeItem_def)
  have o3: "osOpen ?e exTreeH3 ?p = Inr (File exBodyH3)
      \<and> readAll ?e ?p (File exBodyH3) = Inr exBodyH3
      \<and> jsonDecodeItem ?e exBodyH3 = Some \<lparr>UID = ''abc'', Hash = ''h3''\<rparr>"
    by (simp add: osOpen_def readAll_def exEnv_def exTreeH3_def exDecodeItem_def exBodyH3_def)
  have o4: "osOpen ?e exTreeOld ?p = Inr (File exBodyOld)
      \<and> readAll ?e ?p (File exBodyOld) = Inr exBodyOld
      \<and> jsonDecodeItem ?e exBodyOld = Some \<lparr>UID = ''abc'', Hash = ''old''\<rparr>"
    by (simp add: osOpen_def readAll_def exEnv_def exTreeOld_def exDecodeItem_def exBodyOld_def)
  from o1 have r1: "shouldSaveRecipe ?e exTreeMissing ?p ''h1'' = (True, False)"
    using shouldSaveRecipe_table [of ?e exTreeMissing ?p ENOENT "''h1''"] by blast
  from o2 have r2: "shouldSaveRecipe ?e exTreeInvalid ?p ''h2'' = (True, True)"
    using shouldSaveRecipe_table [of ?e exTreeInvalid ?p ENOENT "''h2''"
        "File ''{not-json''" "''{not-json''"] by blast
  from o3 have r3: "shouldSaveRecipe ?e exTreeH3 ?p ''h3'' = (False, True)"
    using shouldSaveRecipe_table [of ?e exTreeH3 ?p ENOENT "''h3''" "File exBodyH3" exBodyH3
        "\<lparr>UID = ''abc'', Hash = ''h3''\<rparr>"]
    by simp
  from o4 have r4: "shouldSaveRecipe ?e exTreeOld ?p ''new'' = (True, True)"
    using shouldSaveRecipe_table [of ?e exTreeOld ?p ENOENT "''new''" "File exBodyOld" exBodyOld
        "\<lparr>UID = ''abc'', Hash = ''old''\<rparr>"]
    by simp
  from r1 r2 r3 r4 show ?thesis by simp
qed

section \<open>Facts about the file system\<close>

lemma map_of_insertEntry:
  "map_of (insertEntry c n es) k = (if k = c then Some n else map_of es k)"
  by (induction es) auto

lemma lookup_putAt_same:
  "p \<noteq> [] \<Longrightarrow> lookup t (butlast p) = Some (Dir es) \<Longrightarrow> lookup (putAt p n t) p = Some n"
proof (induction p arbitrary: t es)
  case Nil
  then show ?case by simp
next
  case (Cons c cs)
  show ?case
  proof (cases cs)
    case Nil
    with Cons.prems show ?thesis by (simp add: map_of_insertEntry)
  next
    case (Cons d ds)
    with Cons.prems obtain es0 ch where t: "t = Dir es0" and ch: "map_of es0 c = Some ch"
      and sub: "lookup ch (butlast cs) = Some (Dir es)"
      by (cases t) (auto split: option.splits)
    from Cons have "cs \<noteq> []" by simp
    from Cons.IH [OF this sub] have "lookup (putAt cs n ch) cs = Some n" .
    with t ch \<open>cs \<noteq> []\<close> show ?thesis by (simp add: map_of_insertEntry)
  qed
qed

lemma lookup_putAt_parent:
  "p \<noteq> [] \<Longrightarrow> lookup t (butlast p) = Some (Dir es) \<Longrightarrow>
     \<exists>es'. lookup (putAt p n t) (butlast p) = Some (Dir es')"
proof (induction p arbitrary: t es)
  case Nil
  then show ?case by simp
next
  case (Cons c cs)
  show ?case
  proof (cases cs)
    case Nil
    with Cons.prems show ?thesis by simp
  next
    case (Cons d ds)
    with Cons.prems obtain es0 ch where t: "t = Dir es0" and ch: "map_of es0 c = Some ch"
      and sub: "lookup ch (butlast cs) = Some (Dir es)"
      by (cases t) (auto split: option.splits)
    from Cons have ne: "cs \<noteq> []" by simp
    from Cons.IH [OF ne sub] obtain es' where
      "lookup (putAt cs n ch) (butlast cs) = Some (Dir es')" by blast
    with t ch ne show ?thesis by (simp add: map_of_insertEntry)
  qed
qed

lemma saveAsJSON_written:
  assumes "saveAsJSON e body p t = (None, t')"
  shows "lookup t' p = Some (File body)"
proof -
  from assms obtain t1 where mk: "osMkdirAll e (filepathDir p) t = (None, t1)"
    and rest: "(case osCreate e p t1 of (Some err, t2) \<Rightarrow> (Some err, t2)
                 | (None, t2) \<Rightarrow> osWrite e p body t2) = (None, t')"
    by (auto simp add: saveAsJSON_def split: prod.splits option.splits)
  from rest obtain t2 where cr: "osCreate e p t1 = (None, t2)"
    and wr: "osWrite e p body t2 = (None, t')"
    by (auto split: prod.splits option.splits)
  from cr obtain es where ne: "p \<noteq> []" and par: "lookup t1 (butlast p) = Some (Dir es)"
    and t2: "t2 = putAt p (File []) t1"
    by (auto simp add: osCreate_def filepathDir_def split: if_splits option.splits node.splits)
  from lookup_putAt_parent [OF ne par] t2 obtain es' where
    par2: "lookup t2 (butlast p) = Some (Dir es')" by blast
  from wr have "t' = putAt p (File body) t2"
    by (auto simp add: osWrite_def split: if_splits)
  with lookup_putAt_same [OF ne par2] show ?thesis by simp
qed





section \<open>What UpsertRecipe does with a fetched record\<close>

text \<open>
  Claim C4. After a successful fetch of the full record, \<open>UpsertRecipe\<close> writes the
  fetched record if and only if its UID is the UID of the reference: with another UID
  it returns the mismatch error and leaves the tree as it was; with the same UID it
  saves the record, whatever the fetched hash is, returns the outcome of the write, and
  when the write raised no error the recipe file holds the encoded record.
\<close>

theorem UpsertRecipe_writes_iff_uid_matches:
  assumes "pathToRecipeJSONFile e (DataDir cli) (UID ref) = Some p"
    and "fst (shouldSaveRecipe e (fs w) p (Hash ref))"
    and "apiRecipe e (UID ref) = Inr recipe"
  shows "(UID recipe \<noteq> UID ref \<longrightarrow>
            UpsertRecipe e cli ref w =
              (Returns (False, Some (ErrUIDMismatch (UID recipe) (UID ref))),
               \<lparr>fs = fs w, fetched = UID ref # fetched w\<rparr>))
       \<and> (UID recipe = UID ref \<longrightarrow>
            (\<exists>err t'. saveAsJSON e (jsonEncodeRecipe e recipe) p (fs w) = (err, t')
               \<and> UpsertRecipe e cli ref w =
                   (Returns (err = None, err), \<lparr>fs = t', fetched = UID ref # fetched w\<rparr>)
               \<and> (err = None \<longrightarrow> lookup t' p = Some (File (jsonEncodeRecipe e recipe)))))"
proof (intro conjI impI)
  assume "UID recipe \<noteq> UID ref"
  with assms show "UpsertRecipe e cli ref w =
      (Returns (False, Some (ErrUIDMismatch (UID recipe) (UID ref))),
       \<lparr>fs = fs w, fetched = UID ref # fetched w\<rparr>)"
    by (cases "shouldSaveRecipe e (fs w) p (Hash ref)") (simp add: UpsertRecipe_def Let_def)
next
  assume same: "UID recipe = UID ref"
  obtain err t' where sv: "saveAsJSON e (jsonEncodeRecipe e recipe) p (fs w) = (err, t')"
    by (cases "saveAsJSON e (jsonEncodeRecipe e recipe) p (fs w)")
  from assms same sv have "UpsertRecipe e cli ref w =
      (Returns (err = None, err), \<lparr>fs = t', fetched = UID ref # fetched w\<rparr>)"
    by (cases "shouldSaveRecipe e (fs w) p (Hash ref)"; cases err)
       (simp_all add: UpsertRecipe_def Let_def)
  moreover have "err = None \<longrightarrow> lookup t' p = Some (File (jsonEncodeRecipe e recipe))"
    using sv saveAsJSON_written by blast
  ultimately show "\<exists>err t'. saveAsJSON e (jsonEncodeRecipe e recipe) p (fs w) = (err, t')
      \<and> UpsertRecipe e cli ref w =
          (Returns (err = None, err), \<lparr>fs = t', fetched = UID ref # fetched w\<rparr>)
      \<and> (err = None \<longrightarrow> lookup t' p = Some (File (jsonEncodeRecipe e recipe)))"
    using sv by blast
qed

text \<open>
  The reference \<^verbatim>\<open>vwxyz\<close> has the hash \<^verbatim>\<open>h2\<close> and the fetched record the hash
  \<^verbatim>\<open>new-hash\<close>: the record is written. For \<^verbatim>\<open>badid\<close> the API answers with the
  record \<^verbatim>\<open>other\<close>: nothing is written.
\<close>

theorem UpsertRecipe_writes_iff_uid_matches_witness:
  "UpsertRecipe (exEnv :: unit env) exCLI \<lparr>UID = ''badid'', Hash = ''h1''\<rparr> exWorld0 =
     (Returns (False, Some (ErrUIDMismatch ''other'' ''badid'')),
      \<lparr>fs = Dir [], fetched = [''badid'']\<rparr>)
   \<and> fst (UpsertRecipe (exEnv :: unit env) exCLI \<lparr>UID = ''vwxyz'', Hash = ''h2''\<rparr> exWorld0) =
       Returns (True, None)
   \<and> lookup (fs (snd (UpsertRecipe (exEnv :: unit env) exCLI \<lparr>UID = ''vwxyz'', Hash = ''h2''\<rparr> exWorld0)))
       [''data'', ''recipes'', ''vw'', ''vwx'', ''vwxyz'', ''recipe.json''] =
       Some (File (exEncodeRecipe \<lparr>UID = ''vwxyz'', Hash = ''new-hash'', Fields = ''Second''\<rparr>))"
proof -
  let ?e = "exEnv :: unit env"
  let ?bad = "\<lparr>UID = ''badid'', Hash = ''h1''\<rparr>" and ?ref = "\<lparr>UID = ''vwxyz'', Hash = ''h2''\<rparr>"
  let ?pb = "[''data'', ''recipes'', ''ba'', ''bad'', ''badid'', ''recipe.json'']"
  let ?pv = "[''data'', ''recipes'', ''vw'', ''vwx'', ''vwxyz'', ''recipe.json'']"
  let ?other = "\<lparr>UID = ''other'', Hash = ''h1'', Fields = []\<rparr>"
  let ?rec = "\<lparr>UID = ''vwxyz'', Hash = ''new-hash'', Fields = ''Second''\<rparr>"
  have pb: "pathToRecipeJSONFile ?e (DataDir exCLI) (UID ?bad) = Some ?pb"
    and pv: "pathToRecipeJSONFile ?e (DataDir exCLI) (UID ?ref) = Some ?pv"
    by (simp_all add: pathToRecipeJSONFile_def pathToRecipeDir_def pathToRecipesDir_def
        exEnv_def exCLI_def filenameRecipeJSON_def)
  have sb: "fst (shouldSaveRecipe ?e (fs exWorld0) ?pb (Hash ?bad))"
    and sv: "fst (shouldSaveRecipe ?e (fs exWorld0) ?pv (Hash ?ref))"
    by (simp_all add: shouldSaveRecipe_def osOpen_def exEnv_def exWorld0_def)
  have ab: "apiRecipe ?e (UID ?bad) = Inr ?other" and av: "apiRecipe ?e (UID ?ref) = Inr ?rec"
    by (simp_all add: exEnv_def exApiRecipe_def)
  have wr: "fst (saveAsJSON ?e (jsonEncodeRecipe ?e ?rec) ?pv (fs exWorld0)) = None"
    by (simp add: saveAsJSON_def osMkdirAll_def osCreate_def osWrite_def filepathDir_def
        exEnv_def exWorld0_def)
  from UpsertRecipe_writes_iff_uid_matches [OF pb sb ab]
  have r1: "UpsertRecipe ?e exCLI ?bad exWorld0 =
      (Returns (False, Some (ErrUIDMismatch ''other'' ''badid'')),
       \<lparr>fs = Dir [], fetched = [''badid'']\<rparr>)"
    by (simp add: exWorld0_def)
  from UpsertRecipe_writes_iff_uid_matches [OF pv sv av] wr
  have r2: "fst (UpsertRecipe ?e exCLI ?ref exWorld0) = Returns (True, None)
      \<and> lookup (fs (snd (UpsertRecipe ?e exCLI ?ref exWorld0))) ?pv
          = Some (File (jsonEncodeRecipe ?e ?rec))"
    by auto
  have "jsonEncodeRecipe ?e ?rec = exEncodeRecipe ?rec" by (simp add: exEnv_def)
  with r1 r2 show ?thesis by simp
qed

section \<open>Unchanged recipes are skipped\<close>





























section \<open>When the purge phase runs\<close>

text \<open>
  Claim C5. Let the sync phase of a run return with the error flag \<open>flag\<close> in the
  world \<open>w1\<close>. The purge phase (\<open>PurgeUnreferencedRecipes\<close>, followed by the pruning
  when the purge raised no error) runs exactly when the flag is not set and the grace
  period is not negative; zero is immediate purge. With the flag set, or with a negative
  grace period, the run ends in the world the sync phase left: nothing is deleted and no
  marker is created.
\<close>

theorem Run_purges_iff_no_error_and_enabled:
  assumes "syncPhase e cmd cli w = (Returns flag, w1)"
  shows "(\<not> flag \<and> 0 \<le> PurgeAfter cmd \<longrightarrow>
            Run fuel e cmd cli now w =
              (case PurgeUnreferencedRecipes fuel e cmd (DataDir cli) now (fs w1) of
                 None \<Rightarrow> None
               | Some (Returns (Some err), t1) \<Rightarrow>
                   Some (Returns (Some ErrSyncCompletedWithErrors), w1\<lparr>fs := t1\<rparr>)
               | Some (Returns None, t1) \<Rightarrow>
                   (case PruneFilelessSubtrees e (pathToRecipesDir e (DataDir cli)) t1 of
                      (Some err, t2) \<Rightarrow>
                        Some (Returns (Some ErrSyncCompletedWithErrors), w1\<lparr>fs := t2\<rparr>)
                    | (None, t2) \<Rightarrow> Some (Returns None, w1\<lparr>fs := t2\<rparr>))
               | Some (Exits c, t1) \<Rightarrow> Some (Exits c, w1\<lparr>fs := t1\<rparr>)
               | Some (Panics, t1) \<Rightarrow> Some (Panics, w1\<lparr>fs := t1\<rparr>)
               | Some (Blocks, t1) \<Rightarrow> Some (Blocks, w1\<lparr>fs := t1\<rparr>)))
       \<and> (flag \<longrightarrow> Run fuel e cmd cli now w = Some (Returns (Some ErrSyncCompletedWithErrors), w1))
       \<and> (\<not> flag \<and> PurgeAfter cmd < 0 \<longrightarrow> Run fuel e cmd cli now w = Some (Returns None, w1))"
  using assms
  by (auto simp add: Run_def purgePhase_def
      split: option.splits prod.splits outcome.splits)

text \<open>
  Three runs on the tree with the unlisted recipe \<^verbatim>\<open>old11\<close>: with immediate purge
  the recipe goes and its directories are pruned; with purge disabled, and with a sync
  phase that failed (the index cannot be written), the tree stays.
\<close>

theorem Run_purges_iff_no_error_and_enabled_witness:
  "Run 10 (exEnv :: unit env) exCmdImmediate exCLI () \<lparr>fs = exTreeOld11, fetched = []\<rparr> =
     Some (Returns None, \<lparr>fs = exTreeOld11Purged, fetched = []\<rparr>)
   \<and> Run 10 (exEnv :: unit env) (exCmdImmediate\<lparr>PurgeAfter := - 1\<rparr>) exCLI ()
        \<lparr>fs = exTreeOld11, fetched = []\<rparr> =
     Some (Returns None, \<lparr>fs = exTreeOld11, fetched = []\<rparr>)
   \<and> Run 10 ((exEnv :: unit env)\<lparr>apiRecipes := ([], Some (ErrAPI ''500''))\<rparr>)
        (exCmdImmediate\<lparr>IncludeRecipes := True\<rparr>) exCLI () \<lparr>fs = exTreeOld11, fetched = []\<rparr> =
     Some (Returns (Some ErrSyncCompletedWithErrors), \<lparr>fs = exTreeOld11, fetched = []\<rparr>)"
proof -
  let ?e = "exEnv :: unit env" and ?w = "\<lparr>fs = exTreeOld11, fetched = []\<rparr>"
  let ?o = "exCmdImmediate\<lparr>PurgeAfter := - 1\<rparr>"
  let ?f = "(exEnv :: unit env)\<lparr>apiRecipes := ([], Some (ErrAPI ''500''))\<rparr>"
  let ?c = "exCmdImmediate\<lparr>IncludeRecipes := True\<rparr>"
  have s1: "syncPhase ?e exCmdImmediate exCLI ?w = (Returns False, ?w)"
    by (simp add: syncPhase_def exCmdImmediate_def)
  have s2: "syncPhase ?e ?o exCLI ?w = (Returns False, ?w)"
    by (simp add: syncPhase_def exCmdImmediate_def)
  have s3: "syncPhase ?f ?c exCLI ?w = (Returns True, ?w)"
    by (simp add: syncPhase_def syncRecipes_def SaveRecipesIndex_def exCmdImmediate_def exEnv_def)
  have g1: "\<not> False \<and> 0 \<le> PurgeAfter exCmdImmediate" by (simp add: exCmdImmediate_def)
  have g2: "\<not> False \<and> PurgeAfter ?o < 0" by simp
  have p1: "PurgeUnreferencedRecipes 10 ?e exCmdImmediate (DataDir exCLI) () exTreeOld11 =
      Some (Returns None, Dir [(''data'', Dir [(''recipes'', Dir [(''ol'', Dir [(''old'', Dir [])])]),
        (''recipes-index.json'', File ''INDEX'')])])"
    by code_simp
  have p2: "PruneFilelessSubtrees ?e (pathToRecipesDir ?e (DataDir exCLI))
      (Dir [(''data'', Dir [(''recipes'', Dir [(''ol'', Dir [(''old'', Dir [])])]),
        (''recipes-index.json'', File ''INDEX'')])]) = (None, exTreeOld11Purged)"
    by code_simp
  from Run_purges_iff_no_error_and_enabled [OF s1, of 10 "()"] g1 p1 p2
  have r1: "Run 10 ?e exCmdImmediate exCLI () ?w = Some (Returns None, \<lparr>fs = exTreeOld11Purged, fetched = []\<rparr>)"
    by simp
  from Run_purges_iff_no_error_and_enabled [OF s2, of 10 "()"] g2
  have r2: "Run 10 ?e ?o exCLI () ?w = Some (Returns None, ?w)" by blast
  from Run_purges_iff_no_error_and_enabled [OF s3, of 10 "()"]
  have r3: "Run 10 ?f ?c exCLI () ?w = Some (Returns (Some ErrSyncCompletedWithErrors), ?w)" by blast
  from r1 r2 r3 show ?thesis by simp
qed

section \<open>Two errors that do not reach the error flag\<close>

text \<open>
  Claim C8 says that an error of \<^verbatim>\<open>os.RemoveAll\<close> on a recipe directory is propagated
  out of \<open>PurgeUnreferencedRecipes\<close> and sets the error flag of the run. The code logs
  the error and returns \<^verbatim>\<open>filepath.SkipDir\<close>: \<open>purgeDir\<close> never returns an error,
  and on the tree with the unlisted recipe \<^verbatim>\<open>old11\<close>, with immediate purge and every
  \<^verbatim>\<open>os.RemoveAll\<close> refused, the purge returns no error, the directory is still there,
  and the run reports success.
\<close>

theorem purge_swallows_RemoveAll_error:
  "fst (purgeDir e dir t) = WalkSkipDir
   \<and> osRemoveAll (exEnvDenied :: unit env) [''data'', ''recipes'', ''ol'', ''old'', ''old11''] exTreeOld11
       = (Some EACCES, exTreeOld11)
   \<and> PurgeUnreferencedRecipes 10 (exEnvDenied :: unit env) exCmdImmediate [''data''] () exTreeOld11
       = Some (Returns None, exTreeOld11)
   \<and> Run 10 (exEnvDenied :: unit env) exCmdImmediate exCLI () \<lparr>fs = exTreeOld11, fetched = []\<rparr>
       = Some (Returns None, \<lparr>fs = exTreeOld11, fetched = []\<rparr>)"
proof -
  have "fst (purgeDir e dir t) = WalkSkipDir"
    by (simp add: purgeDir_def split: prod.splits)
  moreover have "osRemoveAll (exEnvDenied :: unit env)
      [''data'', ''recipes'', ''ol'', ''old'', ''old11''] exTreeOld11 = (Some EACCES, exTreeOld11)"
    by (simp add: osRemoveAll_def exEnvDenied_def exEnv_def)
  moreover have "PurgeUnreferencedRecipes 10 (exEnvDenied :: unit env) exCmdImmediate [''data''] ()
      exTreeOld11 = Some (Returns None, exTreeOld11)"
    by code_simp
  moreover have "Run 10 (exEnvDenied :: unit env) exCmdImmediate exCLI ()
      \<lparr>fs = exTreeOld11, fetched = []\<rparr> = Some (Returns None, \<lparr>fs = exTreeOld11, fetched = []\<rparr>)"
    by code_simp
  ultimately show ?thesis by simp
qed

text \<open>
  Claim C9 says that a failure of the categories branch does not end the run. When the
  call for the categories fails, \<open>SaveCategoriesIndex\<close> logs with \<^verbatim>\<open>log.Fatal()\<close>,
  which ends the process: whatever the environment and the command are otherwise, a run
  with categories included and a failing categories call exits with status 1, and (with
  the tasks in the order of their start) before any recipe is handled.
\<close>

theorem Run_exits_on_categories_error:
  "Run fuel (e\<lparr>apiCategories := Inl err\<rparr>) (cmd\<lparr>IncludeCategories := True\<rparr>) cli now w =
     Some (Exits 1, w)
   \<and> Run 0 ((exEnv :: unit env)\<lparr>apiCategories := Inl (ErrAPI ''500'')\<rparr>) exCmdNoPurge exCLI ()
       exWorld0 = Some (Exits 1, exWorld0)"
proof -
  have "Run fuel (e\<lparr>apiCategories := Inl err\<rparr>) (cmd\<lparr>IncludeCategories := True\<rparr>) cli now w =
      Some (Exits 1, w)"
    by (simp add: Run_def syncPhase_def SaveCategoriesIndex_def)
  moreover have "Run 0 ((exEnv :: unit env)\<lparr>apiCategories := Inl (ErrAPI ''500'')\<rparr>) exCmdNoPurge
      exCLI () exWorld0 = Some (Exits 1, exWorld0)"
    by code_simp
  ultimately show ?thesis by simp
qed

section \<open>Pruning removes the fileless subtrees and nothing else\<close>

lemma removeChildren_ok:
  "noFailure e \<Longrightarrow> removeChildren e dir names es = (None, filter (\<lambda>(k, v). k \<notin> set names) es)"
proof (induction names arbitrary: es)
  case Nil
  then show ?case by simp
next
  case (Cons a names)
  then show ?case
    by (auto simp add: noFailure_def AList.delete_eq intro!: filter_cong split: prod.splits)
qed

lemma key_in_selected:
  "distinct (map fst es) \<Longrightarrow> (k, v) \<in> set es \<Longrightarrow>
     (k \<in> set (map fst (filter (\<lambda>(k, v). P v) es))) = P v"
  by (induction es) (auto simp add: rev_image_eqI)

lemma remove_selected:
  assumes "distinct (map fst es)"
  shows "filter (\<lambda>(k, v). k \<notin> set (map fst (filter (\<lambda>(k, v). P v) es))) (map (\<lambda>(k, v). (k, f v)) es)
       = map (\<lambda>(k, v). (k, f v)) (filter (\<lambda>(k, v). \<not> P v) es)"
proof -
  have "filter (\<lambda>(k, v). k \<notin> set (map fst (filter (\<lambda>(k, v). P v) es))) (map (\<lambda>(k, v). (k, f v)) es)
      = map (\<lambda>(k, v). (k, f v)) (filter (\<lambda>(k, v). k \<notin> set (map fst (filter (\<lambda>(k, v). P v) es))) es)"
    by (simp add: filter_map comp_def case_prod_unfold)
  also have "filter (\<lambda>(k, v). k \<notin> set (map fst (filter (\<lambda>(k, v). P v) es))) es
      = filter (\<lambda>(k, v). \<not> P v) es"
    using key_in_selected [OF assms, of _ _ P] by (intro filter_cong) auto
  finally show ?thesis .
qed

lemma keep_fileless_children:
  "list_all (\<lambda>(k, v). fileless v) es \<Longrightarrow> map (\<lambda>(k, v). (k, keep v)) es = es"
  by (induction es) (auto simp add: keep_def)

lemma keep_other_children:
  "map (\<lambda>(k, v). (k, keep v)) (filter (\<lambda>(k, v). \<not> fileless v) es)
     = map (\<lambda>(k, v). (k, pruned v)) (filter (\<lambda>(k, v). \<not> fileless v) es)"
  by (induction es) (auto simp add: keep_def)

lemma prune_both:
  "(noFailure e \<longrightarrow> sortedTree n \<longrightarrow> isDir n \<longrightarrow> pruneDir e dir n = ((fileless n, None), keep n))"
  "(noFailure e \<longrightarrow> list_all (\<lambda>(k, v). sortedTree v) rest \<longrightarrow>
      pruneEntries e dir visited rest h ec =
        (Inr (h \<and> list_all (\<lambda>(k, v). fileless v) rest,
              ec @ map fst (filter (\<lambda>(k, v). fileless v) rest)),
         visited @ map (\<lambda>(k, v). (k, keep v)) rest))"
proof (induction e dir n and e dir visited rest h ec rule: pruneDir_pruneEntries.induct)
  case (1 e dir s)
  then show ?case by (simp add: isDir_def)
next
  case (2 e dir es)
  show ?case
  proof (intro impI)
    assume nf: "noFailure e" and st: "sortedTree (Dir es)"
    from nf have live: "\<not> ctxErr e" "\<not> fails e OpReadDir dir" by (simp_all add: noFailure_def)
    from st have ch: "list_all (\<lambda>(k, v). sortedTree v) es" and di: "distinct (map fst es)"
      by simp_all
    from 2 live nf ch have loop: "pruneEntries e dir [] es True [] =
        (Inr (list_all (\<lambda>(k, v). fileless v) es, map fst (filter (\<lambda>(k, v). fileless v) es)),
         map (\<lambda>(k, v). (k, keep v)) es)"
      by simp
    show "pruneDir e dir (Dir es) = ((fileless (Dir es), None), keep (Dir es))"
    proof (cases "list_all (\<lambda>(k, v). fileless v) es")
      case True
      then have "keep (Dir es) = Dir es" by (simp add: keep_def)
      with True loop live show ?thesis
        by (simp add: keep_fileless_children)
    next
      case False
      then have kp: "keep (Dir es) = pruned (Dir es)" by (simp add: keep_def)
      let ?names = "map fst (filter (\<lambda>(k, v). fileless v) es)"
      let ?es1 = "map (\<lambda>(k, v). (k, keep v)) es"
      have "filter (\<lambda>(k, v). k \<notin> set ?names) ?es1
          = map (\<lambda>(k, v). (k, keep v)) (filter (\<lambda>(k, v). \<not> fileless v) es)"
        by (rule remove_selected [OF di])
      also have "\<dots> = map (\<lambda>(k, v). (k, pruned v)) (filter (\<lambda>(k, v). \<not> fileless v) es)"
        by (rule keep_other_children)
      finally have "removeChildren e dir ?names ?es1
          = (None, map (\<lambda>(k, v). (k, pruned v)) (filter (\<lambda>(k, v). \<not> fileless v) es))"
        by (simp only: removeChildren_ok [OF nf])
      with False loop live kp show ?thesis
        by simp
    qed
  qed
next
  case (3 e dir visited hasOnlyDirs emptyChildren)
  then show ?case by simp
next
  case (4 e dir visited name ch rest hasOnlyDirs emptyChildren)
  show ?case
  proof (intro impI)
    assume nf: "noFailure e" and st: "list_all (\<lambda>(k, v). sortedTree v) ((name, ch) # rest)"
    from nf have live: "\<not> ctxErr e" by (simp add: noFailure_def)
    from st have sch: "sortedTree ch" and srest: "list_all (\<lambda>(k, v). sortedTree v) rest" by simp_all
    show "pruneEntries e dir visited ((name, ch) # rest) hasOnlyDirs emptyChildren =
        (Inr (hasOnlyDirs \<and> list_all (\<lambda>(k, v). fileless v) ((name, ch) # rest),
              emptyChildren @ map fst (filter (\<lambda>(k, v). fileless v) ((name, ch) # rest))),
         visited @ map (\<lambda>(k, v). (k, keep v)) ((name, ch) # rest))"
    proof (cases "isDir ch")
      case False
      then obtain s where s: "ch = File s" by (cases ch) (simp_all add: isDir_def)
      from s have "keep ch = ch" by (simp add: keep_def)
      with 4(1) [OF live] False nf srest s show ?thesis
        by (simp add: live isDir_def)
    next
      case True
      from 4(2) [OF live] True nf sch
      have sub: "pruneDir e (dir @ [name]) ch = ((fileless ch, None), keep ch)" by simp
      show ?thesis
      proof (cases "fileless ch")
        case fl: True
        from 4(3) [OF live _ sub [symmetric]] True fl nf srest show ?thesis
          by (simp add: live sub)
      next
        case fl: False
        from 4(4) [OF live _ sub [symmetric]] True fl nf srest show ?thesis
          by (simp add: live sub)
      qed
    qed
  qed
qed


lemma pruneRootEntries_ok:
  "noFailure e \<Longrightarrow> list_all (\<lambda>(k, v). sortedTree v) rest \<Longrightarrow>
     pruneRootEntries e root visited rest =
       (None, visited @ map (\<lambda>(k, v). (k, pruned v)) (filter (\<lambda>(k, v). \<not> fileless v) rest))"
proof (induction rest arbitrary: visited)
  case Nil
  then show ?case by simp
next
  case (Cons a rest)
  obtain name ch where a: "a = (name, ch)" by (cases a)
  from Cons.prems a have sch: "sortedTree ch" and srest: "list_all (\<lambda>(k, v). sortedTree v) rest"
    by simp_all
  from Cons.prems have live: "\<not> ctxErr e" "\<not> fails e OpRemoveAll (root @ [name])"
    by (simp_all add: noFailure_def)
  show ?case
  proof (cases ch)
    case (File s)
    with a Cons.IH [OF Cons.prems(1) srest] show ?thesis by (simp add: isDir_def)
  next
    case (Dir ds)
    then have d: "isDir ch" by (simp add: isDir_def)
    from prune_both(1) [of e ch "root @ [name]"] Cons.prems(1) sch d
    have sub: "pruneDir e (root @ [name]) ch = ((fileless ch, None), keep ch)" by simp
    show ?thesis
    proof (cases "fileless ch")
      case True
      with a d sub live Cons.IH [OF Cons.prems(1) srest] show ?thesis by simp
    next
      case False
      then have "keep ch = pruned ch" by (simp add: keep_def)
      with False a d sub live Cons.IH [OF Cons.prems(1) srest] show ?thesis by simp
    qed
  qed
qed

lemma PruneFilelessSubtrees_ok:
  assumes "noFailure e" and "lookup t root = Some (Dir es)" and "sortedTree (Dir es)"
  shows "PruneFilelessSubtrees e root t = (None, putAt root (pruned (Dir es)) t)"
proof -
  from assms(1) have "\<not> fails e OpReadDir root" by (simp add: noFailure_def)
  moreover from assms(3) have "list_all (\<lambda>(k, v). sortedTree v) es" by simp
  ultimately show ?thesis
    using assms(1,2) by (simp add: PruneFilelessSubtrees_def pruneRootEntries_ok)
qed

lemma lookup_putAt_there:
  "lookup t p = Some m \<Longrightarrow> lookup (putAt p n t) p = Some n"
proof (induction p arbitrary: t)
  case Nil
  then show ?case by simp
next
  case (Cons c cs)
  then obtain es ch where t: "t = Dir es" and ch: "map_of es c = Some ch"
    and sub: "lookup ch cs = Some m"
    by (cases t) (auto split: option.splits)
  from Cons.IH [OF sub] t ch show ?case by (simp add: map_of_insertEntry)
qed

lemma map_of_selected:
  "distinct (map fst es) \<Longrightarrow>
     map_of (map (\<lambda>(k, v). (k, f v)) (filter (\<lambda>(k, v). P v) es)) c =
       (case map_of es c of None \<Rightarrow> None | Some v \<Rightarrow> if P v then Some (f v) else None)"
proof (induction es)
  case Nil
  then show ?case by simp
next
  case (Cons a es)
  obtain k v where a: "a = (k, v)" by (cases a)
  from Cons.prems a have "map_of es k = None"
    by (simp add: map_of_eq_None_iff)
  with Cons a show ?case by (auto split: option.splits)
qed

lemma sortedTree_child:
  "sortedTree (Dir es) \<Longrightarrow> map_of es c = Some ch \<Longrightarrow> sortedTree ch"
  by (auto simp add: list_all_iff dest: map_of_SomeD)

lemma fileless_child:
  "fileless (Dir es) \<Longrightarrow> map_of es c = Some ch \<Longrightarrow> fileless ch"
  by (auto simp add: list_all_iff dest: map_of_SomeD)

lemma fileless_below:
  "fileless n \<Longrightarrow> lookup n q = Some m \<Longrightarrow> fileless m"
proof (induction q arbitrary: n)
  case Nil
  then show ?case by simp
next
  case (Cons c cs)
  then obtain es ch where n: "n = Dir es" and ch: "map_of es c = Some ch"
    and sub: "lookup ch cs = Some m"
    by (cases n) (auto split: option.splits)
  from Cons.prems(1) n ch have "fileless ch" by (simp add: fileless_child del: fileless.simps)
  from Cons.IH [OF this sub] show ?case .
qed

lemma pruned_directory:
  "sortedTree n \<Longrightarrow> q \<noteq> [] \<Longrightarrow> lookup n q = Some (Dir ds) \<Longrightarrow>
     (lookup (pruned n) q = None) = fileless (Dir ds)"
proof (induction q arbitrary: n)
  case Nil
  then show ?case by simp
next
  case (Cons c cs)
  then obtain es ch where n: "n = Dir es" and ch: "map_of es c = Some ch"
    and sub: "lookup ch cs = Some (Dir ds)"
    by (cases n) (auto split: option.splits)
  from Cons.prems(1) n have di: "distinct (map fst es)" by simp
  from Cons.prems(1) n ch have sch: "sortedTree ch" by (simp add: sortedTree_child del: sortedTree.simps)
  have step: "lookup (pruned n) (c # cs) = (if fileless ch then None else lookup (pruned ch) cs)"
    using n ch map_of_selected [OF di, of pruned "\<lambda>v. \<not> fileless v" c] by simp
  show ?case
  proof (cases "fileless ch")
    case True
    from fileless_below [OF True sub] True step show ?thesis by simp
  next
    case False
    show ?thesis
    proof (cases cs)
      case Nil
      with sub False step show ?thesis by simp
    next
      case (Cons d ds')
      then have "cs \<noteq> []" by simp
      from Cons.IH [OF sch this sub] False step show ?thesis by simp
    qed
  qed
qed

lemma pruned_file:
  "sortedTree n \<Longrightarrow> lookup n q = Some (File s) \<Longrightarrow> lookup (pruned n) q = Some (File s)"
proof (induction q arbitrary: n)
  case Nil
  then show ?case by simp
next
  case (Cons c cs)
  then obtain es ch where n: "n = Dir es" and ch: "map_of es c = Some ch"
    and sub: "lookup ch cs = Some (File s)"
    by (cases n) (auto split: option.splits)
  from Cons.prems(1) n have di: "distinct (map fst es)" by simp
  from Cons.prems(1) n ch have sch: "sortedTree ch" by (simp add: sortedTree_child del: sortedTree.simps)
  have nf: "\<not> fileless ch"
  proof
    assume "fileless ch"
    from fileless_below [OF this sub] show False by simp
  qed
  have "lookup (pruned n) (c # cs) = (if fileless ch then None else lookup (pruned ch) cs)"
    using n ch map_of_selected [OF di, of pruned "\<lambda>v. \<not> fileless v" c] by simp
  with nf Cons.IH [OF sch sub] show ?case by simp
qed

text \<open>
  Claim C7. When no call is refused, \<open>PruneFilelessSubtrees\<close> on a root directory
  returns no error and leaves, in place of the root, the root without its fileless
  subdirectories: the root itself is still a directory; a directory below the root is
  gone if and only if it is fileless; every file below the root is still there.
\<close>

theorem PruneFilelessSubtrees_removes_fileless:
  assumes "noFailure e" and "lookup t root = Some (Dir es)" and "sortedTree (Dir es)"
  shows "PruneFilelessSubtrees e root t = (None, putAt root (pruned (Dir es)) t)
       \<and> lookup (putAt root (pruned (Dir es)) t) root = Some (pruned (Dir es))
       \<and> isDir (pruned (Dir es))
       \<and> (\<forall>q ds. q \<noteq> [] \<and> lookup (Dir es) q = Some (Dir ds) \<longrightarrow>
             (lookup (pruned (Dir es)) q = None) = fileless (Dir ds))
       \<and> (\<forall>q s. lookup (Dir es) q = Some (File s) \<longrightarrow>
             lookup (pruned (Dir es)) q = Some (File s))"
  using PruneFilelessSubtrees_ok [OF assms] lookup_putAt_there [OF assms(2)]
    pruned_directory [OF assms(3)] pruned_file [OF assms(3)]
  by (simp add: isDir_def)

text \<open>
  The tree of the test: \<^verbatim>\<open>remove\<close> goes with all below it, \<^verbatim>\<open>keep/child\<close> and
  its file stay. Under a root with no file at all, everything goes and the root stays.
\<close>

theorem PruneFilelessSubtrees_removes_fileless_witness:
  "PruneFilelessSubtrees (exEnv :: unit env) [''tmp''] exTreePrune =
     (None, Dir [(''tmp'', Dir [(''keep'', Dir [(''child'', Dir [(''file.txt'', File ''data'')])])])])
   \<and> PruneFilelessSubtrees (exEnv :: unit env) [''tmp''] exTreeHollow = (None, Dir [(''tmp'', Dir [])])"
proof -
  let ?e = "exEnv :: unit env"
  let ?es = "[(''keep'', Dir [(''child'', Dir [(''file.txt'', File ''data'')])]),
              (''remove'', Dir [(''empty'', Dir [(''nested'', Dir [])])])]"
  let ?hs = "[(''a'', Dir [(''b'', Dir [])]), (''c'', Dir [])]"
  have nf: "noFailure ?e" by (simp add: noFailure_def exEnv_def)
  have l1: "lookup exTreePrune [''tmp''] = Some (Dir ?es)" by (simp add: exTreePrune_def)
  have l2: "lookup exTreeHollow [''tmp''] = Some (Dir ?hs)" by (simp add: exTreeHollow_def)
  have s1: "sortedTree (Dir ?es)" by simp
  have s2: "sortedTree (Dir ?hs)" by simp
  from PruneFilelessSubtrees_removes_fileless [OF nf l1 s1]
  have "PruneFilelessSubtrees ?e [''tmp''] exTreePrune = (None, putAt [''tmp''] (pruned (Dir ?es)) exTreePrune)"
    by blast
  moreover from PruneFilelessSubtrees_removes_fileless [OF nf l2 s2]
  have "PruneFilelessSubtrees ?e [''tmp''] exTreeHollow = (None, putAt [''tmp''] (pruned (Dir ?hs)) exTreeHollow)"
    by blast
  ultimately show ?thesis by (simp add: exTreePrune_def exTreeHollow_def)
qed

section \<open>Marker timestamps round-trip\<close>

lemma digitVal_digitChar: "0 \<le> d \<Longrightarrow> d < 10 \<Longrightarrow> digitVal (digitChar d) = d"
  by (simp add: digitVal_def digitChar_def)

lemma isDigit_digitChar: "0 \<le> d \<Longrightarrow> d < 10 \<Longrightarrow> isDigit (digitChar d)"
proof -
  assume b: "0 \<le> d" "d < 10"
  then have i: "(of_char (digitChar d) :: int) = 48 + d" by (simp add: digitChar_def)
  have "int (of_char (digitChar d)) = of_char (digitChar d)" by (rule of_nat_of_char)
  with i have "int (of_char (digitChar d)) = 48 + d" by simp
  with b have n: "(of_char (digitChar d) :: nat) = nat (48 + d)" by linarith
  from b show ?thesis unfolding isDigit_def less_eq_char_def n by simp arith
qed
lemma length_digits: "length (digits w x) = w"
  by (induction w arbitrary: x) simp_all

lemma isDigit_digits: "list_all isDigit (digits w x)"
  by (induction w arbitrary: x) (simp_all add: isDigit_digitChar)

lemma decVal_snoc: "decVal (s @ [c]) = decVal s * 10 + digitVal c"
  by (simp add: decVal_def)

lemma decVal_digits: "decVal (digits w x) = x mod 10 ^ w"
proof (induction w arbitrary: x)
  case 0
  then show ?case by (simp add: decVal_def)
next
  case (Suc w)
  have "x div 10 mod 10 ^ w * 10 + x mod 10 = x mod (10 * 10 ^ w)"
    by (simp add: zmod_zmult2_eq)
  with Suc show ?case by (simp add: decVal_snoc digitVal_digitChar)
qed

lemma numDigits_le: "0 < w \<Longrightarrow> x < 10 ^ w \<Longrightarrow> numDigits x \<le> w"
proof (induction w arbitrary: x)
  case 0
  then show ?case by simp
next
  case (Suc w)
  show ?case
  proof (cases "x < 10")
    case True
    then show ?thesis by (simp add: numDigits.simps)
  next
    case False
    with Suc.prems have "0 < w" by (cases w) simp_all
    moreover from Suc.prems have "x div 10 < 10 ^ w" by simp
    ultimately have "numDigits (x div 10) \<le> w" by (rule Suc.IH)
    with False show ?thesis by (simp add: numDigits.simps [of x])
  qed
qed

lemma appendInt_digits: "0 < w \<Longrightarrow> 0 \<le> x \<Longrightarrow> x < 10 ^ w \<Longrightarrow> appendInt x w = digits w x"
  by (simp add: appendInt_def numDigits_le max_absorb1)

lemma parseUint_digits:
  "0 \<le> x \<Longrightarrow> x < 10 ^ w \<Longrightarrow> lo \<le> x \<Longrightarrow> x \<le> hi \<Longrightarrow> parseUint (digits w x) lo hi = Some x"
  by (simp add: parseUint_def isDigit_digits decVal_digits)



lemma daysIn_le: "daysIn m y \<le> 31"
  by (simp add: daysIn_def)

lemma parseClock_digits:
  assumes "0 \<le> y" "y \<le> 9999" "1 \<le> mo" "mo \<le> 12" "1 \<le> d" "d \<le> daysIn mo y"
    "0 \<le> h" "h \<le> 23" "0 \<le> mi" "mi \<le> 59" "0 \<le> sec" "sec \<le> 59"
  shows "parseClock (digits 4 y @ CHR ''-'' # digits 2 mo @ CHR ''-'' # digits 2 d @ CHR ''T''
            # digits 2 h @ CHR '':'' # digits 2 mi @ CHR '':'' # digits 2 sec @ rest)
       = Some \<lparr>Year = y, Month = mo, Day = d, Hour = h, Minute = mi, Second = sec,
                 Nanosecond = 0, ZoneOffset = 0\<rparr>"
proof -
  from assms(6) daysIn_le [of mo y] have d31: "d \<le> 31" by simp
  have py: "parseUint (digits 4 y) 0 9999 = Some y"
    using assms by (intro parseUint_digits) simp_all
  have pm: "parseUint (digits 2 mo) 1 12 = Some mo"
    using assms by (intro parseUint_digits) simp_all
  have pd: "parseUint (digits 2 d) 1 (daysIn mo y) = Some d"
    using assms d31 by (intro parseUint_digits) simp_all
  have ph: "parseUint (digits 2 h) 0 23 = Some h"
    using assms by (intro parseUint_digits) simp_all
  have pmi: "parseUint (digits 2 mi) 0 59 = Some mi"
    using assms by (intro parseUint_digits) simp_all
  have ps: "parseUint (digits 2 sec) 0 59 = Some sec"
    using assms by (intro parseUint_digits) simp_all
  show ?thesis
    by (simp add: parseClock_def slice_def length_digits nth_append py pm pd ph pmi ps)
qed

lemma formatClock_digits:
  assumes "validTime t"
  shows "formatClock t = digits 4 (Year t) @ CHR ''-'' # digits 2 (Month t) @ CHR ''-''
            # digits 2 (Day t) @ CHR ''T'' # digits 2 (Hour t) @ CHR '':'' # digits 2 (Minute t)
            @ CHR '':'' # digits 2 (Second t)"
proof -
  from assms daysIn_le [of "Month t" "Year t"] have "Day t \<le> 31" by (simp add: validTime_def)
  with assms show ?thesis
    by (simp add: formatClock_def validTime_def appendInt_digits)
qed

lemma length_formatClock: "validTime t \<Longrightarrow> length (formatClock t) = 19"
  by (simp add: formatClock_digits length_digits)


lemma abs_offset:
  fixes off :: int
  assumes "off mod 60 = 0" and "\<bar>off\<bar> \<le> 86340"
  shows "\<bar>off\<bar> mod 60 = 0" and "off \<noteq> 0 \<longrightarrow> 60 \<le> \<bar>off\<bar>"
proof -
  from assms(1) have "60 dvd off" by (simp add: dvd_eq_mod_eq_0)
  then have d: "60 dvd \<bar>off\<bar>" by simp
  then show "\<bar>off\<bar> mod 60 = 0" by (simp only: mod_eq_0_iff_dvd)
  show "off \<noteq> 0 \<longrightarrow> 60 \<le> \<bar>off\<bar>"
  proof
    assume "off \<noteq> 0"
    then have "0 < \<bar>off\<bar>" by simp
    with d show "60 \<le> \<bar>off\<bar>" by (rule zdvd_imp_le)
  qed
qed

lemma formatZone_cases:
  assumes "off mod 60 = 0" and "\<bar>off\<bar> \<le> 86340"
  shows "formatZone off =
    (if off = 0 then ''Z''
     else (if off < 0 then CHR ''-'' else CHR ''+'')
            # digits 2 (\<bar>off\<bar> div 3600) @ CHR '':'' # digits 2 (\<bar>off\<bar> div 60 mod 60))"
proof (cases "off = 0")
  case True
  then show ?thesis by (simp add: formatZone_def)
next
  case False
  define a where "a = \<bar>off\<bar>"
  from abs_offset [OF assms] False assms(2) have a: "a \<le> 86340" "a mod 60 = 0" "60 \<le> a"
    by (simp_all add: a_def)
  define zone where "zone = (if off < 0 then - ((- off) div 60) else off div 60)"
  have zone: "zone = (if off < 0 then - (a div 60) else a div 60)"
    by (simp add: zone_def a_def)
  from a have pos: "0 < a div 60" by (simp add: pos_imp_zdiv_pos_iff)
  from pos have az: "\<bar>zone\<bar> = a div 60" by (simp add: zone)
  from pos have neg: "(zone < 0) = (off < 0)" by (simp add: zone)
  have d: "a div 60 div 60 = a div 3600" using zdiv_zmult2_eq [of 60 a 60] by simp
  have hh: "appendInt (a div 3600) 2 = digits 2 (a div 3600)"
    using a by (intro appendInt_digits) simp_all
  have mm: "appendInt (a div 60 mod 60) 2 = digits 2 (a div 60 mod 60)"
    by (intro appendInt_digits) simp_all
  have "formatZone off = (if zone < 0 then ''-'' else ''+'')
      @ appendInt (\<bar>zone\<bar> div 60) 2 @ '':'' @ appendInt (\<bar>zone\<bar> mod 60) 2"
    using False by (simp add: formatZone_def Let_def zone_def)
  also have "\<dots> = (if off < 0 then CHR ''-'' else CHR ''+'')
      # digits 2 (a div 3600) @ CHR '':'' # digits 2 (a div 60 mod 60)"
    by (simp add: az neg d hh mm)
  finally show ?thesis using False by (simp add: a_def)
qed

lemma parseZone_formatZone:
  assumes "off mod 60 = 0" and "\<bar>off\<bar> \<le> 86340"
  shows "parseZone (formatZone off) = Some off"
proof (cases "off = 0")
  case True
  then show ?thesis by (simp add: formatZone_def parseZone_def)
next
  case False
  define a where "a = \<bar>off\<bar>"
  from abs_offset [OF assms] assms(2) have a: "a \<le> 86340" "a mod 60 = 0" "0 \<le> a"
    by (simp_all add: a_def)
  have ph: "parseUint (digits 2 (a div 3600)) 0 23 = Some (a div 3600)"
    using a by (intro parseUint_digits) simp_all
  have pm: "parseUint (digits 2 (a div 60 mod 60)) 0 59 = Some (a div 60 mod 60)"
    using a by (intro parseUint_digits) simp_all
  have val: "(a div 3600 * 60 + a div 60 mod 60) * 60 = a"
  proof -
    have e: "a div 3600 = a div 60 div 60" using zdiv_zmult2_eq [of 60 a 60] by simp
    have "a div 3600 * 60 + a div 60 mod 60 = a div 60"
      unfolding e by (rule div_mult_mod_eq)
    moreover from a have "a div 60 * 60 = a" using div_mult_mod_eq [of a 60] by simp
    ultimately show ?thesis by simp
  qed
  have parsed: "parseZone ((if off < 0 then CHR ''-'' else CHR ''+'')
        # digits 2 (a div 3600) @ CHR '':'' # digits 2 (a div 60 mod 60))
      = Some (if off < 0 then - a else a)"
    using val by (simp add: parseZone_def slice_def length_digits nth_append ph pm)
  have "(if off < 0 then - a else a) = off" by (simp add: a_def)
  with parsed False show ?thesis
    by (simp only: formatZone_cases [OF assms] a_def if_False)
qed

lemma trimZeros_decomp:
  "s = trimZeros s @ replicate (length s - length (trimZeros s)) (CHR ''0'')"
proof -
  let ?P = "\<lambda>c. c = CHR ''0''"
  have tw: "takeWhile ?P (rev s) = replicate (length (takeWhile ?P (rev s))) (CHR ''0'')"
    by (intro replicate_length_same [symmetric]) (auto dest: set_takeWhileD)
  have "rev s = takeWhile ?P (rev s) @ dropWhile ?P (rev s)" by simp
  then have "s = rev (dropWhile ?P (rev s)) @ rev (takeWhile ?P (rev s))"
    by (metis rev_append rev_rev_ident)
  also have "rev (takeWhile ?P (rev s)) = replicate (length (takeWhile ?P (rev s))) (CHR ''0'')"
    by (subst tw) simp
  also have "length (takeWhile ?P (rev s)) = length s - length (trimZeros s)"
    using length_append [of "takeWhile ?P (rev s)" "dropWhile ?P (rev s)"]
    by (simp add: trimZeros_def)
  finally show ?thesis by (simp add: trimZeros_def)
qed

lemma decVal_zeros: "decVal (s @ replicate k (CHR ''0'')) = decVal s * 10 ^ k"
proof (induction k)
  case 0
  then show ?case by simp
next
  case (Suc k)
  have "decVal (s @ replicate (Suc k) (CHR ''0'')) = decVal ((s @ replicate k (CHR ''0'')) @ [CHR ''0''])"
    by (simp add: replicate_append_same)
  also have "\<dots> = decVal (s @ replicate k (CHR ''0'')) * 10 + digitVal (CHR ''0'')"
    by (rule decVal_snoc)
  finally show ?case using Suc by (simp add: digitVal_def)
qed

lemma length_trimZeros: "length (trimZeros s) \<le> length s"
  by (simp add: trimZeros_def length_dropWhile_le [of _ "rev s", simplified])

lemma isDigit_trimZeros: "list_all isDigit s \<Longrightarrow> list_all isDigit (trimZeros s)"
  by (auto simp add: trimZeros_def list_all_iff dest: set_dropWhileD)

lemma decVal_trimZeros:
  "decVal (trimZeros s) * 10 ^ (length s - length (trimZeros s)) = decVal s"
  using decVal_zeros [of "trimZeros s" "length s - length (trimZeros s)"] trimZeros_decomp [of s]
  by simp

lemma trimZeros_nonempty:
  assumes "0 < ns" and "ns < 10 ^ 9"
  shows "trimZeros (digits 9 ns) \<noteq> []"
proof
  assume "trimZeros (digits 9 ns) = []"
  with decVal_trimZeros [of "digits 9 ns"] have "decVal (digits 9 ns) = 0"
    by (simp add: decVal_def)
  with assms show False by (simp add: decVal_digits)
qed

lemma parseFraction_appendNano:
  assumes "0 \<le> ns" and "ns \<le> 999999999" and "z \<noteq> []" and "\<not> isDigit (hd z)"
    and "hd z \<noteq> CHR ''.''"
  shows "parseFraction (appendNano ns @ z) = (ns, z)"
proof (cases "ns = 0")
  case True
  with assms show ?thesis
    by (cases z) (simp_all add: appendNano_def parseFraction_def)
next
  case False
  let ?tz = "trimZeros (digits 9 ns)"
  from assms(2) have lt: "ns < 10 ^ 9" by simp
  from False assms(1) have gt: "0 < ns" by simp
  from gt lt have ne: "?tz \<noteq> []" by (rule trimZeros_nonempty)
  have dg: "list_all isDigit ?tz" by (simp add: isDigit_trimZeros isDigit_digits)
  have len: "length ?tz \<le> 9" using length_trimZeros [of "digits 9 ns"] by (simp add: length_digits)
  from ne dg have first: "isDigit (?tz ! 0)" by (cases ?tz) simp_all
  from dg have "takeWhile isDigit (?tz @ z) = ?tz @ takeWhile isDigit z"
    by (simp add: takeWhile_append2 list_all_iff)
  moreover from assms(3,4) have "takeWhile isDigit z = []" by (cases z) simp_all
  ultimately have tw: "takeWhile isDigit (?tz @ z) = ?tz" by simp
  have val: "decVal ?tz * 10 ^ (9 - length ?tz) = ns"
    using decVal_trimZeros [of "digits 9 ns"] lt assms(1) by (simp add: length_digits decVal_digits)
  have app: "appendNano ns = CHR ''.'' # ?tz"
    using False lt assms(1) by (simp add: appendNano_def appendInt_digits)
  from ne have l2: "2 \<le> length (CHR ''.'' # ?tz @ z)" by (cases ?tz) simp_all
  from ne first have s1: "isDigit ((CHR ''.'' # ?tz @ z) ! 1)" by (simp add: nth_append)
  from len have mn: "min (Suc (length ?tz)) 10 = Suc (length ?tz)" by simp
  show ?thesis
    unfolding app parseFraction_def
    using l2 s1 tw mn val len
    by (simp add: Let_def slice_def)
qed

lemma formatZone_head:
  assumes "off mod 60 = 0" and "\<bar>off\<bar> \<le> 86340"
  shows "formatZone off \<noteq> [] \<and> \<not> isDigit (hd (formatZone off)) \<and> hd (formatZone off) \<noteq> CHR ''.''
     \<and> length (formatZone off) \<le> 6"
  unfolding formatZone_cases [OF assms]
  by (simp add: isDigit_def length_digits less_eq_char_def)

lemma length_appendNano: "0 \<le> ns \<Longrightarrow> ns \<le> 999999999 \<Longrightarrow> length (appendNano ns) \<le> 10"
  using length_trimZeros [of "digits 9 ns"]
  by (simp add: appendNano_def appendInt_digits length_digits)

lemma parseRFC3339_format:
  assumes "validTime t"
  shows "parseRFC3339 (formatRFC3339Nano t) = Some t"
proof -
  from assms have z: "ZoneOffset t mod 60 = 0" "\<bar>ZoneOffset t\<bar> \<le> 86340"
    and ns: "0 \<le> Nanosecond t" "Nanosecond t \<le> 999999999"
    by (simp_all add: validTime_def)
  let ?rest = "appendNano (Nanosecond t) @ formatZone (ZoneOffset t)"
  from assms have clock: "parseClock (formatClock t @ ?rest) =
      Some \<lparr>Year = Year t, Month = Month t, Day = Day t, Hour = Hour t, Minute = Minute t,
             Second = Second t, Nanosecond = 0, ZoneOffset = 0\<rparr>"
    unfolding formatClock_digits [OF assms]
    using parseClock_digits [of "Year t" "Month t" "Day t" "Hour t" "Minute t" "Second t" ?rest]
    by (simp add: validTime_def)
  have dr: "drop 19 (formatClock t @ ?rest) = ?rest"
    by (simp add: length_formatClock [OF assms])
  from formatZone_head [OF z] ns
  have fr: "parseFraction ?rest = (Nanosecond t, formatZone (ZoneOffset t))"
    by (intro parseFraction_appendNano) simp_all
  have "parseRFC3339 (formatClock t @ ?rest) =
      Some \<lparr>Year = Year t, Month = Month t, Day = Day t, Hour = Hour t, Minute = Minute t,
             Second = Second t, Nanosecond = Nanosecond t, ZoneOffset = ZoneOffset t\<rparr>"
    unfolding parseRFC3339_def clock dr fr
    by (simp add: parseZone_formatZone [OF z])
  then show ?thesis by (simp add: formatRFC3339Nano_def)
qed

lemma length_formatRFC3339Nano:
  assumes "validTime t"
  shows "length (formatRFC3339Nano t) \<le> length RFC3339Nano"
proof -
  from assms have z: "ZoneOffset t mod 60 = 0" "\<bar>ZoneOffset t\<bar> \<le> 86340"
    and ns: "0 \<le> Nanosecond t" "Nanosecond t \<le> 999999999"
    by (simp_all add: validTime_def)
  from formatZone_head [OF z] length_appendNano [OF ns] length_formatClock [OF assms]
  show ?thesis by (simp add: formatRFC3339Nano_def RFC3339Nano_def)
qed


lemma createMarker_written:
  assumes "createMarker e dataDir uid stamp t = (WalkSkipDir, t')"
  shows "\<exists>mp. pathToRecipeDeleteMarkerFile e dataDir uid = Some mp
           \<and> lookup t' mp = Some (File stamp)"
proof -
  from assms obtain mp where mp: "pathToRecipeDeleteMarkerFile e dataDir uid = Some mp"
    by (auto simp add: createMarker_def split: option.splits)
  from assms mp obtain t1 where cr: "osCreateExcl e mp t = (None, t1)"
    and wr: "osWrite e mp stamp t1 = (None, t')"
    by (auto simp add: createMarker_def split: prod.splits option.splits if_splits)
  from cr obtain es where ne: "mp \<noteq> []" and par: "lookup t (butlast mp) = Some (Dir es)"
    and t1: "t1 = putAt mp (File []) t"
    by (auto simp add: osCreateExcl_def filepathDir_def split: if_splits option.splits node.splits)
  from lookup_putAt_parent [OF ne par] t1 obtain es' where
    par1: "lookup t1 (butlast mp) = Some (Dir es')" by blast
  from wr have "t' = putAt mp (File stamp) t1"
    by (auto simp add: osWrite_def split: if_splits)
  with lookup_putAt_same [OF ne par1] mp show ?thesis by simp
qed

lemma readTimestampMarker_formatted:
  assumes "validTime tm" and "timeParse e = goParse"
    and "lookup t p = Some (File (formatRFC3339Nano tm))"
    and "\<not> fails e OpOpen p" and "\<not> fails e OpRead p"
  shows "readTimestampMarker e t p RFC3339Nano = Inr tm"
proof -
  from length_formatRFC3339Nano [OF assms(1)]
  have short: "take (length RFC3339Nano) (formatRFC3339Nano tm) = formatRFC3339Nano tm" by simp
  from length_formatClock [OF assms(1)] have ne: "formatRFC3339Nano tm \<noteq> []"
    by (auto simp add: formatRFC3339Nano_def)
  have l: "length RFC3339Nano \<noteq> 0" by (simp add: RFC3339Nano_def)
  from assms(3,4,5) ne l short
  have "fileRead e p (File (formatRFC3339Nano tm)) (length RFC3339Nano) = Inr (formatRFC3339Nano tm)"
    by (simp add: fileRead_def)
  with assms show ?thesis
    by (simp add: readTimestampMarker_def osOpen_def goParse_def parseRFC3339_format)
qed

text \<open>
  Claim C10. For every time that the layout RFC3339Nano can express, the formatted text
  is no longer than the layout, so that the buffer of \<open>readTimestampMarker\<close> holds the
  whole body of a marker file with that text, and \<open>readTimestampMarker\<close> returns the
  time again; in particular it reads back the time with which the purge stamped a marker
  that \<open>createMarker\<close> wrote.
\<close>

theorem marker_timestamp_roundtrip:
  assumes "validTime tm" and "timeParse e = goParse" and "timeFormat e = goFormat"
    and "\<forall>p. \<not> fails e OpOpen p \<and> \<not> fails e OpRead p"
  shows "length (timeFormat e RFC3339Nano tm) \<le> length RFC3339Nano
       \<and> (lookup t p = Some (File (timeFormat e RFC3339Nano tm)) \<longrightarrow>
            readTimestampMarker e t p RFC3339Nano = Inr tm)
       \<and> (createMarker e dataDir uid (timeFormat e RFC3339Nano tm) t = (WalkSkipDir, t') \<longrightarrow>
            (\<exists>mp. pathToRecipeDeleteMarkerFile e dataDir uid = Some mp
               \<and> readTimestampMarker e t' mp RFC3339Nano = Inr tm))"
proof (intro conjI impI)
  from assms(3) have fmt: "timeFormat e RFC3339Nano tm = formatRFC3339Nano tm"
    by (simp add: goFormat_def)
  show "length (timeFormat e RFC3339Nano tm) \<le> length RFC3339Nano"
    using length_formatRFC3339Nano [OF assms(1)] fmt by simp
  show "readTimestampMarker e t p RFC3339Nano = Inr tm"
    if "lookup t p = Some (File (timeFormat e RFC3339Nano tm))"
    using that fmt assms readTimestampMarker_formatted [of tm e t p] by simp
  show "\<exists>mp. pathToRecipeDeleteMarkerFile e dataDir uid = Some mp
      \<and> readTimestampMarker e t' mp RFC3339Nano = Inr tm"
    if "createMarker e dataDir uid (timeFormat e RFC3339Nano tm) t = (WalkSkipDir, t')"
  proof -
    from createMarker_written [OF that] fmt obtain mp where
      mp: "pathToRecipeDeleteMarkerFile e dataDir uid = Some mp"
      and lk: "lookup t' mp = Some (File (formatRFC3339Nano tm))" by auto
    from readTimestampMarker_formatted [OF assms(1,2) lk] assms(4) mp show ?thesis by simp
  qed
qed

text \<open>
  The time of \<^verbatim>\<open>TestReadTimestampMarker\<close>, and a time with nanoseconds in a zone
  east of UTC, whose text is as long as the layout.
\<close>

theorem marker_timestamp_roundtrip_witness:
  "timeFormat exGoEnv RFC3339Nano exTime2023 = ''2023-05-06T07:08:09Z''
   \<and> readTimestampMarker exGoEnv (Dir [(''marker'', File ''2023-05-06T07:08:09Z'')]) [''marker'']
        RFC3339Nano = Inr exTime2023
   \<and> length (timeFormat exGoEnv RFC3339Nano
        (exTime2023\<lparr>Nanosecond := 123456789, ZoneOffset := 19800\<rparr>)) = 35
   \<and> readTimestampMarker exGoEnv
        (Dir [(''marker'', File ''2023-05-06T07:08:09.123456789+05:30'')]) [''marker''] RFC3339Nano
        = Inr (exTime2023\<lparr>Nanosecond := 123456789, ZoneOffset := 19800\<rparr>)"
proof -
  let ?t2 = "exTime2023\<lparr>Nanosecond := 123456789, ZoneOffset := 19800\<rparr>"
  have v1: "validTime exTime2023" by code_simp
  have v2: "validTime ?t2" by code_simp
  have p: "timeParse exGoEnv = goParse" and f: "timeFormat exGoEnv = goFormat"
    by (simp_all add: exGoEnv_def)
  have nf: "\<forall>p. \<not> fails exGoEnv OpOpen p \<and> \<not> fails exGoEnv OpRead p"
    by (simp add: exGoEnv_def exEnv_def)
  have f1: "timeFormat exGoEnv RFC3339Nano exTime2023 = ''2023-05-06T07:08:09Z''" by code_simp
  have f2: "timeFormat exGoEnv RFC3339Nano ?t2 = ''2023-05-06T07:08:09.123456789+05:30''"
    by code_simp
  have l1: "lookup (Dir [(''marker'', File ''2023-05-06T07:08:09Z'')]) [''marker'']
      = Some (File (timeFormat exGoEnv RFC3339Nano exTime2023))"
    by (simp add: f1)
  have l2: "lookup (Dir [(''marker'', File ''2023-05-06T07:08:09.123456789+05:30'')]) [''marker'']
      = Some (File (timeFormat exGoEnv RFC3339Nano ?t2))"
    by (simp add: f2)
  from marker_timestamp_roundtrip [OF v1 p f nf] l1
  have r1: "readTimestampMarker exGoEnv (Dir [(''marker'', File ''2023-05-06T07:08:09Z'')])
      [''marker''] RFC3339Nano = Inr exTime2023" by blast
  from marker_timestamp_roundtrip [OF v2 p f nf] l2
  have r2: "readTimestampMarker exGoEnv
      (Dir [(''marker'', File ''2023-05-06T07:08:09.123456789+05:30'')]) [''marker''] RFC3339Nano
      = Inr ?t2" by blast
  from f1 f2 r1 r2 show ?thesis by simp
qed

section \<open>The walk over one recipe directory\<close>

lemma lookup_append:
  "lookup t (p @ q) = (case lookup t p of None \<Rightarrow> None | Some n \<Rightarrow> lookup n q)"
proof (induction p arbitrary: t)
  case Nil
  then show ?case by simp
next
  case (Cons c cs)
  then show ?case by (cases t) (simp_all split: option.splits)
qed

lemma lookup_removeAt_dir:
  "lookup t dir = Some (Dir es) \<Longrightarrow>
     lookup (removeAt (dir @ [c]) t) dir = Some (Dir (AList.delete c es))"
proof (induction dir arbitrary: t)
  case Nil
  then show ?case by simp
next
  case (Cons c0 dir)
  then obtain es0 ch where t: "t = Dir es0" and ch: "map_of es0 c0 = Some ch"
    and sub: "lookup ch dir = Some (Dir es)"
    by (cases t) (auto split: option.splits)
  from Cons.IH [OF sub] t ch show ?case by (simp add: map_of_insertEntry)
qed

lemma walkDir_file: "walkDir (Suc k) e fn q False t = Some (fn q False None t)"
proof (cases "fn q False None t")
  case (Pair r t1)
  then show ?thesis by (cases r) simp_all
qed

lemma purgeVisit_other:
  "name \<noteq> filenameRecipeJSON \<Longrightarrow> name \<noteq> filenameRecipeDeleteMarker \<Longrightarrow>
     purgeVisit e cmd dataDir now ix (dir @ [name]) False None t = (WalkNil, t)"
  by (simp add: purgeVisit_def filepathBase_def Let_def)

lemma walkEntries_others:
  "\<forall>x \<in> set pre. \<not> snd x \<and> fst x \<noteq> filenameRecipeJSON \<and> fst x \<noteq> filenameRecipeDeleteMarker \<Longrightarrow>
     walkEntries (Suc k) e (purgeVisit e cmd dataDir now ix) dir (pre @ rest) t =
     walkEntries (Suc k) e (purgeVisit e cmd dataDir now ix) dir rest t"
proof (induction pre)
  case Nil
  then show ?case by simp
next
  case (Cons x pre)
  obtain name d where x: "x = (name, d)" by (cases x)
  with Cons.prems have "\<not> d" "name \<noteq> filenameRecipeJSON" "name \<noteq> filenameRecipeDeleteMarker"
    by simp_all
  with Cons x show ?case by (simp add: walkDir_file purgeVisit_other del: walkDir.simps)
qed

lemma marker_before_recipe: "filenameRecipeDeleteMarker < filenameRecipeJSON"
  by (simp add: filenameRecipeDeleteMarker_def filenameRecipeJSON_def)

lemma entries_before:
  assumes "sorted (map fst ds)" and "distinct (map fst ds)" and "(m, b) \<in> set ds"
  shows "\<exists>pre post. ds = pre @ (m, b) # post \<and> (\<forall>x \<in> set pre. fst x < m)"
proof -
  from assms(3) obtain pre post where ds: "ds = pre @ (m, b) # post"
    by (auto dest: split_list)
  with assms(1) have "\<forall>x \<in> set pre. fst x \<le> m" by (auto simp add: sorted_append)
  moreover from assms(2) ds have "\<forall>x \<in> set pre. fst x \<noteq> m" by auto
  ultimately have "\<forall>x \<in> set pre. fst x < m" by (simp add: less_le)
  with ds show ?thesis by blast
qed

lemma walkEntries_to_marker:
  assumes "sorted (map fst ds)" and "distinct (map fst ds)"
    and "\<forall>x \<in> set ds. \<not> snd x"
    and "(filenameRecipeDeleteMarker, False) \<in> set ds"
    and "purgeVisit e cmd dataDir now ix (dir @ [filenameRecipeDeleteMarker]) False None t
           = (WalkSkipDir, t')"
  shows "walkEntries (Suc k) e (purgeVisit e cmd dataDir now ix) dir ds t = Some (WalkNil, t')"
proof -
  from entries_before [OF assms(1,2,4)] obtain pre post where
    ds: "ds = pre @ (filenameRecipeDeleteMarker, False) # post"
    and lt: "\<forall>x \<in> set pre. fst x < filenameRecipeDeleteMarker" by blast
  from lt marker_before_recipe
  have "\<forall>x \<in> set pre. fst x \<noteq> filenameRecipeJSON \<and> fst x \<noteq> filenameRecipeDeleteMarker"
    by (metis less_irrefl less_trans)
  with assms(3) ds
  have "\<forall>x \<in> set pre. \<not> snd x \<and> fst x \<noteq> filenameRecipeJSON \<and> fst x \<noteq> filenameRecipeDeleteMarker"
    by simp
  then have "walkEntries (Suc k) e (purgeVisit e cmd dataDir now ix) dir
        (pre @ (filenameRecipeDeleteMarker, False) # post) t =
      walkEntries (Suc k) e (purgeVisit e cmd dataDir now ix) dir
        ((filenameRecipeDeleteMarker, False) # post) t"
    by (rule walkEntries_others)
  with ds assms(5) show ?thesis
    by (simp add: walkDir_file del: walkDir.simps)
qed

lemma walkEntries_indexed:
  assumes "filepathBase dir \<in> set ix"
  shows "\<forall>x \<in> set ds. \<not> snd x \<and> fst x \<noteq> filenameRecipeDeleteMarker \<Longrightarrow>
     walkEntries (Suc k) e (purgeVisit e cmd dataDir now ix) dir ds t = Some (WalkNil, t)"
proof (induction ds)
  case Nil
  then show ?case by simp
next
  case (Cons x ds)
  obtain name d where x: "x = (name, d)" by (cases x)
  with Cons.prems have nd: "\<not> d" and nm: "name \<noteq> filenameRecipeDeleteMarker" by simp_all
  from assms nm have "purgeVisit e cmd dataDir now ix (dir @ [name]) False None t = (WalkNil, t)"
    by (simp add: purgeVisit_def filepathBase_def filepathDir_def Let_def)
  with Cons x nd show ?case by (simp add: walkDir_file del: walkDir.simps)
qed

lemma dirEntries_files:
  "list_all (\<lambda>(name, n). \<not> isDir n) es \<Longrightarrow>
     map fst (dirEntries es) = map fst es \<and> (\<forall>x \<in> set (dirEntries es). \<not> snd x)"
  by (induction es) (auto simp add: dirEntries_def)

lemma dirEntries_member:
  "list_all (\<lambda>(name, n). \<not> isDir n) es \<Longrightarrow> map_of es c = Some n \<Longrightarrow>
     (c, False) \<in> set (dirEntries es)"
  by (induction es) (auto simp add: dirEntries_def split: if_splits)

lemma dirEntries_absent:
  "map_of es c = None \<Longrightarrow> \<forall>x \<in> set (dirEntries es). fst x \<noteq> c"
  by (induction es) (auto simp add: dirEntries_def split: if_splits)

lemma walkDir_directory:
  assumes "noFailure e" and "lookup t dir = Some (Dir es)"
  shows "walkDir (Suc (Suc k)) e (purgeVisit e cmd dataDir now ix) dir True t =
           walkEntries (Suc k) e (purgeVisit e cmd dataDir now ix) dir (dirEntries es) t"
proof -
  from assms(1) have "\<not> fails e OpReadDir dir" by (simp add: noFailure_def)
  with assms(2) have rd: "osReadDir e dir t = Inr (dirEntries es)" by (simp add: osReadDir_def)
  have "purgeVisit e cmd dataDir now ix dir True None t = (WalkNil, t)"
    by (simp add: purgeVisit_def Let_def)
  with rd show ?thesis by simp
qed

section \<open>The cutoff of the purge\<close>

text \<open>
  Claim C3, as amended. Take a pass of the purge walk over a recipe directory that holds
  files only, among them a deletion marker whose text parses to the time \<open>m\<close>, with a
  UID that is not in the index, a positive grace period, a live context and no call
  refused. The directory is deleted, with all in it, if the age of the marker
  (now - m) is the grace period or more, that is, if the marker is not after the
  cutoff; otherwise the tree is left as it is. So a marker aged the grace period minus
  one tick is retained, and one aged exactly the grace period, or the grace period plus
  one tick, is deleted.
\<close>

theorem purge_deletes_marked_directory_from_cutoff:
  assumes nf: "noFailure e"
    and dir: "lookup t dir = Some (Dir es)"
    and files: "list_all (\<lambda>(name, n). \<not> isDir n) es"
    and ord: "sorted (map fst es)" "distinct (map fst es)"
    and mk: "map_of es filenameRecipeDeleteMarker = Some (File body)" "body \<noteq> []"
    and parsed: "timeParse e RFC3339Nano (take (length RFC3339Nano) body) = Some m"
    and unidx: "filepathBase dir \<notin> set indexedUIDs"
    and grace: "0 < PurgeAfter cmd"
  shows "walkDir (Suc (Suc k)) e (purgeVisit e cmd dataDir now indexedUIDs) dir True t =
           Some (WalkNil,
             if PurgeAfter cmd \<le> timeUnixNano e now - timeUnixNano e m then removeAt dir t else t)"
proof -
  let ?p = "dir @ [filenameRecipeDeleteMarker]"
  from nf have live: "\<not> ctxErr e" "\<not> fails e OpOpen ?p" "\<not> fails e OpRead ?p"
    "\<not> fails e OpRemoveAll dir"
    by (simp_all add: noFailure_def)
  from dir mk(1) have lk: "lookup t ?p = Some (File body)" by (simp add: lookup_append)
  have l: "length RFC3339Nano \<noteq> 0" by (simp add: RFC3339Nano_def)
  from lk live mk(2) parsed l have rd: "readTimestampMarker e t ?p RFC3339Nano = Inr m"
    by (simp add: readTimestampMarker_def osOpen_def fileRead_def)
  let ?t' = "if PurgeAfter cmd \<le> timeUnixNano e now - timeUnixNano e m then removeAt dir t else t"
  from live unidx grace rd
  have visit: "purgeVisit e cmd dataDir now indexedUIDs ?p False None t = (WalkSkipDir, ?t')"
    by (auto simp add: purgeVisit_def filepathBase_def filepathDir_def Let_def purgeDir_def
        osRemoveAll_def marker_before_recipe [THEN less_imp_neq])
  from dirEntries_files [OF files] ord
  have s: "sorted (map fst (dirEntries es))" "distinct (map fst (dirEntries es))"
    "\<forall>x \<in> set (dirEntries es). \<not> snd x" by simp_all
  from walkEntries_to_marker [OF s dirEntries_member [OF files mk(1)] visit]
    walkDir_directory [OF nf dir]
  show ?thesis by simp
qed


text \<open>
  The recipe \<^verbatim>\<open>old11\<close> is not in the index, the grace period is 24 hours, and now
  is 2024-01-02T15:04:05Z. A marker one nanosecond younger than 24 hours keeps the
  directory; a marker one nanosecond older than 24 hours deletes it. The whole purge
  over the data directory gives the same trees.
\<close>

theorem purge_deletes_marked_directory_from_cutoff_witness:
  "walkDir 2 exGoEnv (purgeVisit exGoEnv exCmd24h [''data''] exNow (map UID exIndex)) exDirOld11 True
      (exTreeMarked ''2024-01-01T15:04:05.000000001Z'') =
     Some (WalkNil, exTreeMarked ''2024-01-01T15:04:05.000000001Z'')
   \<and> walkDir 2 exGoEnv (purgeVisit exGoEnv exCmd24h [''data''] exNow (map UID exIndex)) exDirOld11 True
      (exTreeMarked ''2024-01-01T15:04:04.999999999Z'') =
     Some (WalkNil, exTreeOld11Removed)
   \<and> PurgeUnreferencedRecipes 10 exGoEnv exCmd24h [''data''] exNow
      (exTreeMarked ''2024-01-01T15:04:05.000000001Z'') =
     Some (Returns None, exTreeMarked ''2024-01-01T15:04:05.000000001Z'')
   \<and> PurgeUnreferencedRecipes 10 exGoEnv exCmd24h [''data''] exNow
      (exTreeMarked ''2024-01-01T15:04:04.999999999Z'') =
     Some (Returns None, exTreeOld11Removed)"
proof -
  let ?young = "''2024-01-01T15:04:05.000000001Z''" and ?old = "''2024-01-01T15:04:04.999999999Z''"
  let ?my = "\<lparr>Year = 2024, Month = 1, Day = 1, Hour = 15, Minute = 4, Second = 5,
    Nanosecond = 1, ZoneOffset = 0\<rparr>"
  let ?mo = "\<lparr>Year = 2024, Month = 1, Day = 1, Hour = 15, Minute = 4, Second = 4,
    Nanosecond = 999999999, ZoneOffset = 0\<rparr>"
  let ?es = "\<lambda>body. [(''.delete-marker'', File body), (''recipe.json'', File exBodyOld11)]"
  have nf: "noFailure exGoEnv" by (simp add: noFailure_def exGoEnv_def exEnv_def)
  have lk: "lookup (exTreeMarked body) exDirOld11 = Some (Dir (?es body))" for body
    by (simp add: exTreeMarked_def exDirOld11_def)
  have fl: "list_all (\<lambda>(name, n). \<not> isDir n) (?es body)" for body
    by (simp add: isDir_def)
  have so: "sorted (map fst (?es body))" and di: "distinct (map fst (?es body))" for body
    by simp_all
  have mk: "map_of (?es body) filenameRecipeDeleteMarker = Some (File body)" for body
    by (simp add: filenameRecipeDeleteMarker_def)
  have py: "timeParse exGoEnv RFC3339Nano (take (length RFC3339Nano) ?young) = Some ?my"
    by code_simp
  have po: "timeParse exGoEnv RFC3339Nano (take (length RFC3339Nano) ?old) = Some ?mo"
    by code_simp
  have un: "filepathBase exDirOld11 \<notin> set (map UID exIndex)" by code_simp
  have gr: "0 < PurgeAfter exCmd24h" by (simp add: exCmd24h_def)
  have ay: "\<not> PurgeAfter exCmd24h \<le> timeUnixNano exGoEnv exNow - timeUnixNano exGoEnv ?my"
    by code_simp
  have ao: "PurgeAfter exCmd24h \<le> timeUnixNano exGoEnv exNow - timeUnixNano exGoEnv ?mo"
    by code_simp
  have rm: "removeAt exDirOld11 (exTreeMarked ?old) = exTreeOld11Removed" by code_simp
  have two: "Suc (Suc 0) = 2" by simp
  from purge_deletes_marked_directory_from_cutoff
    [OF nf lk fl so di mk _ py un gr, of 0 "[''data'']" exNow] ay
  have r1: "walkDir 2 exGoEnv (purgeVisit exGoEnv exCmd24h [''data''] exNow (map UID exIndex))
      exDirOld11 True (exTreeMarked ?young) = Some (WalkNil, exTreeMarked ?young)"
    by (simp add: two)
  from purge_deletes_marked_directory_from_cutoff
    [OF nf lk fl so di mk _ po un gr, of 0 "[''data'']" exNow] ao rm
  have r2: "walkDir 2 exGoEnv (purgeVisit exGoEnv exCmd24h [''data''] exNow (map UID exIndex))
      exDirOld11 True (exTreeMarked ?old) = Some (WalkNil, exTreeOld11Removed)"
    by (simp add: two)
  have w1: "PurgeUnreferencedRecipes 10 exGoEnv exCmd24h [''data''] exNow (exTreeMarked ?young) =
      Some (Returns None, exTreeMarked ?young)"
    by code_simp
  have w2: "PurgeUnreferencedRecipes 10 exGoEnv exCmd24h [''data''] exNow (exTreeMarked ?old) =
      Some (Returns None, exTreeOld11Removed)"
    by code_simp
  from r1 r2 w1 w2 show ?thesis by simp
qed

text \<open>
  The claim as it stands deletes the directory only if the age of the marker exceeds the
  grace period, and leaves it untouched otherwise. A marker aged exactly the grace period
  (24 hours to the nanosecond) does not exceed it, and the purge deletes the directory.
\<close>

theorem purge_deletes_at_exact_grace_period:
  "goUnixNano exNow - goUnixNano exNowMinus24h = PurgeAfter exCmd24h
   \<and> formatRFC3339Nano exNowMinus24h = ''2024-01-01T15:04:05Z''
   \<and> PurgeUnreferencedRecipes 10 exGoEnv exCmd24h [''data''] exNow
        (exTreeMarked ''2024-01-01T15:04:05Z'') = Some (Returns None, exTreeOld11Removed)"
  by code_simp

section \<open>Recipes that are in the index again\<close>

lemma delete_absent: "map_of es c = None \<Longrightarrow> AList.delete c es = es"
  by (induction es) (auto simp add: AList.delete_eq split: if_splits)

lemma purge_indexed_aux:
  assumes nf: "noFailure e"
    and dir: "lookup t dir = Some (Dir es)"
    and files: "list_all (\<lambda>(name, n). \<not> isDir n) es"
    and ord: "sorted (map fst es)" "distinct (map fst es)"
    and idx: "filepathBase dir \<in> set indexedUIDs"
  shows "walkDir (Suc (Suc k)) e (purgeVisit e cmd dataDir now indexedUIDs) dir True t =
           Some (WalkNil,
             case map_of es filenameRecipeDeleteMarker of
               None \<Rightarrow> t
             | Some n \<Rightarrow> removeAt (dir @ [filenameRecipeDeleteMarker]) t)"
proof (cases "map_of es filenameRecipeDeleteMarker")
  case None
  from dirEntries_absent [OF None] dirEntries_files [OF files]
  have "\<forall>x \<in> set (dirEntries es). \<not> snd x \<and> fst x \<noteq> filenameRecipeDeleteMarker" by blast
  from walkEntries_indexed [OF idx this] walkDir_directory [OF nf dir] None
  show ?thesis by simp
next
  case (Some n)
  let ?p = "dir @ [filenameRecipeDeleteMarker]"
  from nf have live: "\<not> ctxErr e" "\<not> fails e OpRemove ?p" by (simp_all add: noFailure_def)
  from dir Some have lk: "lookup t ?p = Some n" by (simp add: lookup_append)
  from live idx lk
  have visit: "purgeVisit e cmd dataDir now indexedUIDs ?p False None t = (WalkSkipDir, removeAt ?p t)"
    by (simp add: purgeVisit_def filepathBase_def filepathDir_def Let_def osRemove_def
        marker_before_recipe [THEN less_imp_neq])
  from dirEntries_files [OF files] ord
  have s: "sorted (map fst (dirEntries es))" "distinct (map fst (dirEntries es))"
    "\<forall>x \<in> set (dirEntries es). \<not> snd x" by simp_all
  from walkEntries_to_marker [OF s dirEntries_member [OF files Some] visit]
    walkDir_directory [OF nf dir] Some
  show ?thesis by simp
qed


text \<open>
  Claim C6. Take a pass of the purge walk over a recipe directory that holds files only,
  with a UID that is in the index, a live context and no call refused. If the directory
  holds a deletion marker, the marker is removed and nothing else in the tree changes;
  without a marker the tree is left as it is. Either way the directory holds afterwards
  exactly its entries other than the marker, each as it was: the recipe file is
  untouched.
\<close>

theorem purge_removes_marker_of_indexed_recipe:
  assumes "noFailure e"
    and "lookup t dir = Some (Dir es)"
    and "list_all (\<lambda>(name, n). \<not> isDir n) es"
    and "sorted (map fst es)" and "distinct (map fst es)"
    and "filepathBase dir \<in> set indexedUIDs"
  shows "walkDir (Suc (Suc k)) e (purgeVisit e cmd dataDir now indexedUIDs) dir True t =
           Some (WalkNil,
             case map_of es filenameRecipeDeleteMarker of
               None \<Rightarrow> t
             | Some n \<Rightarrow> removeAt (dir @ [filenameRecipeDeleteMarker]) t)
       \<and> lookup (case map_of es filenameRecipeDeleteMarker of
               None \<Rightarrow> t
             | Some n \<Rightarrow> removeAt (dir @ [filenameRecipeDeleteMarker]) t) dir
           = Some (Dir (AList.delete filenameRecipeDeleteMarker es))"
proof
  show "walkDir (Suc (Suc k)) e (purgeVisit e cmd dataDir now indexedUIDs) dir True t =
      Some (WalkNil,
        case map_of es filenameRecipeDeleteMarker of
          None \<Rightarrow> t
        | Some n \<Rightarrow> removeAt (dir @ [filenameRecipeDeleteMarker]) t)"
    using assms by (rule purge_indexed_aux)
  show "lookup (case map_of es filenameRecipeDeleteMarker of
          None \<Rightarrow> t
        | Some n \<Rightarrow> removeAt (dir @ [filenameRecipeDeleteMarker]) t) dir
      = Some (Dir (AList.delete filenameRecipeDeleteMarker es))"
    using assms(2) by (auto simp add: delete_absent lookup_removeAt_dir split: option.splits)
qed

text \<open>
  The recipe \<^verbatim>\<open>abcde\<close> is in the index and its directory holds a marker and the
  recipe file: after the pass the marker is gone and the recipe file is there. The whole
  purge over the data directory, with a grace period of one hour, gives the same tree.
\<close>

theorem purge_removes_marker_of_indexed_recipe_witness:
  "walkDir 2 (exEnv :: unit env) (purgeVisit exEnv exCmdImmediate [''data''] () (map UID exIndex))
      exDirAbcde True exTreeReappeared = Some (WalkNil, exTreeReappearedAfter)
   \<and> lookup exTreeReappearedAfter exDirAbcde = Some (Dir [(''recipe.json'', File exBodyAbcde)])
   \<and> PurgeUnreferencedRecipes 10 (exEnv :: unit env) (exCmdImmediate\<lparr>PurgeAfter := 3600000000000\<rparr>)
        [''data''] () exTreeReappeared = Some (Returns None, exTreeReappearedAfter)"
proof -
  let ?e = "exEnv :: unit env"
  let ?es = "[(''.delete-marker'', File ''2024-01-01T15:04:05Z''), (''recipe.json'', File exBodyAbcde)]"
  have nf: "noFailure ?e" by (simp add: noFailure_def exEnv_def)
  have lk: "lookup exTreeReappeared exDirAbcde = Some (Dir ?es)"
    by (simp add: exTreeReappeared_def exDirAbcde_def)
  have fl: "list_all (\<lambda>(name, n). \<not> isDir n) ?es" by (simp add: isDir_def)
  have so: "sorted (map fst ?es)" and di: "distinct (map fst ?es)" by simp_all
  have ix: "filepathBase exDirAbcde \<in> set (map UID exIndex)" by code_simp
  have mk: "map_of ?es filenameRecipeDeleteMarker = Some (File ''2024-01-01T15:04:05Z'')"
    by (simp add: filenameRecipeDeleteMarker_def)
  have rm: "removeAt (exDirAbcde @ [filenameRecipeDeleteMarker]) exTreeReappeared = exTreeReappearedAfter"
    by code_simp
  have dl: "AList.delete filenameRecipeDeleteMarker ?es = [(''recipe.json'', File exBodyAbcde)]"
    by (simp add: filenameRecipeDeleteMarker_def AList.delete_eq)
  have two: "Suc (Suc 0) = 2" by simp
  have whole: "PurgeUnreferencedRecipes 10 ?e (exCmdImmediate\<lparr>PurgeAfter := 3600000000000\<rparr>)
      [''data''] () exTreeReappeared = Some (Returns None, exTreeReappearedAfter)"
    by code_simp
  from purge_removes_marker_of_indexed_recipe [OF nf lk fl so di ix, of 0 exCmdImmediate "[''data'']" "()"]
    mk rm dl whole
  show ?thesis by (simp add: two)
qed

end
